theory Spec2Isabelle
  imports Main "HOL-Library.Word"
begin

section \<open>The bridge tool of libwifi\_system\_iface\<close>

text \<open>
  A shallow embedding of \<^verbatim>\<open>src/libwifi_system_iface/bridge_tool.cpp\<close>: the six
  operations of \<^verbatim>\<open>BridgeTool\<close>. The operating system is outside the file, so it is a
  parameter of every operation: a record of functions that give the result of each system
  call from the calls made before it. Every operation threads the list of system calls
  made so far and returns it extended, so that what was asked of the kernel, on which
  descriptor and how often, can be read off the result.
\<close>

subsection \<open>Constants\<close>

text \<open>\<^verbatim>\<open>#define MAX_PORTS 1024\<close> and \<^verbatim>\<open>#define IFNAMSIZ 16\<close>.\<close>

definition MAX_PORTS :: nat where
  "MAX_PORTS = 1024"

definition IFNAMSIZ :: nat where
  "IFNAMSIZ = 16"

text \<open>
  The size in bytes of an \<^verbatim>\<open>int\<close> on the platforms the library is built for, and the
  value of \<^verbatim>\<open>EINTR\<close> in the Linux headers.
\<close>

definition sizeof_int :: nat where
  "sizeof_int = 4"

definition EINTR :: int where
  "EINTR = 4"

subsection \<open>Requests, replies and the kernel\<close>

text \<open>
  An interface index is an \<^verbatim>\<open>int\<close> in \<^verbatim>\<open>ifr_ifindex\<close> and in \<^verbatim>\<open>ifindices\<close>, and an
  \<^verbatim>\<open>unsigned int\<close> in \<^verbatim>\<open>if_nametoindex\<close> and \<^verbatim>\<open>if_indextoname\<close>; the conversions keep
  the 32 bits, so one word type stands for both.
\<close>

type_synonym ifindex = "32 word"

datatype brctl_op = BRCTL_GET_BRIDGES | BRCTL_GET_PORT_LIST

text \<open>
  The request code of an \<^verbatim>\<open>ioctl\<close> together with what its argument points to:
  a C string for the two bridge requests; the \<^verbatim>\<open>ifr_name\<close> and \<^verbatim>\<open>ifr_ifindex\<close> of
  a \<^verbatim>\<open>struct ifreq\<close> for the two interface requests; \<^verbatim>\<open>args[0]\<close>, the array
  \<^verbatim>\<open>args[1]\<close> points to as the kernel finds it, and \<^verbatim>\<open>args[2]\<close> for the two queries,
  the second one behind the \<^verbatim>\<open>ifr_data\<close> of a \<^verbatim>\<open>struct ifreq\<close> with its \<^verbatim>\<open>ifr_name\<close>.
  A name field is given by the C string it holds.
\<close>

datatype ioctl_request =
    SIOCBRADDBR string
  | SIOCBRDELBR string
  | SIOCBRADDIF string ifindex
  | SIOCBRDELIF string ifindex
  | SIOCGIFBR brctl_op "ifindex list" nat
  | SIOCDEVPRIVATE string brctl_op "ifindex list" nat

datatype syscall =
    Sys_socket
  | Sys_ioctl int ioctl_request
  | Sys_if_nametoindex string
  | Sys_if_indextoname ifindex
  | Sys_close int

text \<open>
  What an \<^verbatim>\<open>ioctl\<close> leaves behind: its return value, the value of \<^verbatim>\<open>errno\<close> after
  it, and the indices the kernel copied to the start of the caller's array (used by the
  two queries only).
\<close>

record ioctl_reply =
  ret :: int
  errno :: int
  copied :: "ifindex list"

text \<open>
  The kernel and the C library, as seen by one operation: each function takes the system
  calls made so far. \<^verbatim>\<open>socket\<close> returns a descriptor or a negative value,
  \<^verbatim>\<open>if_nametoindex\<close> returns 0 for an unknown name, \<^verbatim>\<open>if_indextoname\<close> returns a null
  pointer (\<open>None\<close>) for an unknown index and otherwise fills the name buffer.
\<close>

record kernel =
  socket_result :: "syscall list \<Rightarrow> int"
  ioctl_result :: "syscall list \<Rightarrow> int \<Rightarrow> ioctl_request \<Rightarrow> ioctl_reply"
  nametoindex_result :: "syscall list \<Rightarrow> string \<Rightarrow> ifindex"
  indextoname_result :: "syscall list \<Rightarrow> ifindex \<Rightarrow> string option"

subsection \<open>Library functions used by the file\<close>

text \<open>
  \<^verbatim>\<open>std::string::c_str()\<close> read as a C string: the characters before the first
  null character.
\<close>

definition c_str :: "string \<Rightarrow> string" where
  "c_str s = takeWhile (\<lambda>c. c \<noteq> CHR 0x00) s"

text \<open>
  \<^verbatim>\<open>strlcpy(dst, src, n)\<close> for a positive \<^verbatim>\<open>n\<close> (it is \<^verbatim>\<open>IFNAMSIZ\<close> at every
  call site): the C string in \<^verbatim>\<open>dst\<close> afterwards holds at most \<^verbatim>\<open>n - 1\<close> characters of
  \<^verbatim>\<open>src\<close>, followed by the terminator. The return value is not used.
\<close>

definition strlcpy :: "string \<Rightarrow> nat \<Rightarrow> string" where
  "strlcpy src n = take (n - 1) src"

text \<open>
  \<^verbatim>\<open>memset(a, 0, n)\<close> on an array of \<^verbatim>\<open>int\<close>: \<^verbatim>\<open>n\<close> counts bytes, so the first
  \<^verbatim>\<open>n / sizeof(int)\<close> elements become zero and the others keep their contents. At both
  call sites \<^verbatim>\<open>n\<close> is \<^verbatim>\<open>MAX_PORTS\<close>, a multiple of the element size that stays within
  the array.
\<close>

definition memset_zero :: "ifindex list \<Rightarrow> nat \<Rightarrow> ifindex list" where
  "memset_zero a n = replicate (n div sizeof_int) 0 @ drop (n div sizeof_int) a"

text \<open>
  The kernel copying \<open>src\<close> to the start of the caller's array \<open>dst\<close>; the array keeps
  its size.
\<close>

definition copy_to_user :: "ifindex list \<Rightarrow> ifindex list \<Rightarrow> ifindex list" where
  "copy_to_user src dst = take (length dst) (src @ drop (length src) dst)"

text \<open>
  The destructor of \<^verbatim>\<open>base::unique_fd\<close>: it closes every descriptor but \<^verbatim>\<open>-1\<close>.
\<close>

definition unique_fd_close :: "int \<Rightarrow> syscall list \<Rightarrow> syscall list" where
  "unique_fd_close fd t = (if fd \<noteq> - 1 then t @ [Sys_close fd] else t)"

text \<open>
  \<^verbatim>\<open>TEMP_FAILURE_RETRY(ioctl(sock, request, arg))\<close>. The macro is the C library's
  (\<^verbatim>\<open>unistd.h\<close>), like \<^verbatim>\<open>memset\<close> and \<^verbatim>\<open>strlcpy\<close>:
  \<^verbatim>\<open>do { _rc = (exp); } while (_rc == -1 && errno == EINTR);\<close> with \<^verbatim>\<open>_rc\<close> as its
  value. It evaluates the call again for as long as the call returns \<^verbatim>\<open>-1\<close> with
  \<^verbatim>\<open>errno == EINTR\<close>, and yields the last return value. The loop has no bound, so the
  result is optional: \<open>None\<close> stands for a loop that never ends.
\<close>

partial_function (option) TEMP_FAILURE_RETRY_ioctl ::
  "kernel \<Rightarrow> int \<Rightarrow> ioctl_request \<Rightarrow> syscall list \<Rightarrow> (int \<times> syscall list) option" where
  "TEMP_FAILURE_RETRY_ioctl K sock req t =
     (let r = ioctl_result K t sock req;
          t' = t @ [Sys_ioctl sock req]
      in if ret r = - 1 \<and> errno r = EINTR
         then TEMP_FAILURE_RETRY_ioctl K sock req t'
         else Some (ret r, t'))"

subsection \<open>The four operations that change the bridge table\<close>

text \<open>
  Each returns the \<^verbatim>\<open>bool\<close> of the source and the system calls made. Messages to the
  log are not part of the model.
\<close>

definition createBridge ::
  "kernel \<Rightarrow> string \<Rightarrow> syscall list \<Rightarrow> (bool \<times> syscall list) option" where
  "createBridge K br_name t =
     (let sock = socket_result K t;
          t1 = t @ [Sys_socket]
      in case TEMP_FAILURE_RETRY_ioctl K sock (SIOCBRADDBR (c_str br_name)) t1 of
           None \<Rightarrow> None
         | Some (rc, t2) \<Rightarrow>
             if rc \<noteq> 0 then Some (False, unique_fd_close sock t2)
             else Some (True, unique_fd_close sock t2))"

definition deleteBridge ::
  "kernel \<Rightarrow> string \<Rightarrow> syscall list \<Rightarrow> (bool \<times> syscall list) option" where
  "deleteBridge K br_name t =
     (let sock = socket_result K t;
          t1 = t @ [Sys_socket]
      in case TEMP_FAILURE_RETRY_ioctl K sock (SIOCBRDELBR (c_str br_name)) t1 of
           None \<Rightarrow> None
         | Some (rc, t2) \<Rightarrow>
             if rc \<noteq> 0 then Some (False, unique_fd_close sock t2)
             else Some (True, unique_fd_close sock t2))"

definition addIfaceToBridge ::
  "kernel \<Rightarrow> string \<Rightarrow> string \<Rightarrow> syscall list \<Rightarrow> (bool \<times> syscall list) option" where
  "addIfaceToBridge K br_name if_name t =
     (let ifr_ifindex = nametoindex_result K t (c_str if_name);
          t1 = t @ [Sys_if_nametoindex (c_str if_name)]
      in if ifr_ifindex = 0 then Some (False, t1)
         else
           let ifr_name = strlcpy (c_str br_name) IFNAMSIZ;
               sock = socket_result K t1;
               t2 = t1 @ [Sys_socket]
           in case TEMP_FAILURE_RETRY_ioctl K sock (SIOCBRADDIF ifr_name ifr_ifindex) t2 of
                None \<Rightarrow> None
              | Some (rc, t3) \<Rightarrow>
                  if rc \<noteq> 0 then Some (False, unique_fd_close sock t3)
                  else Some (True, unique_fd_close sock t3))"

definition removeIfaceFromBridge ::
  "kernel \<Rightarrow> string \<Rightarrow> string \<Rightarrow> syscall list \<Rightarrow> (bool \<times> syscall list) option" where
  "removeIfaceFromBridge K br_name if_name t =
     (let ifr_ifindex = nametoindex_result K t (c_str if_name);
          t1 = t @ [Sys_if_nametoindex (c_str if_name)]
      in if ifr_ifindex = 0 then Some (False, t1)
         else
           let ifr_name = strlcpy (c_str br_name) IFNAMSIZ;
               sock = socket_result K t1;
               t2 = t1 @ [Sys_socket]
           in case TEMP_FAILURE_RETRY_ioctl K sock (SIOCBRDELIF ifr_name ifr_ifindex) t2 of
                None \<Rightarrow> None
              | Some (rc, t3) \<Rightarrow>
                  if rc \<noteq> 0 then Some (False, unique_fd_close sock t3)
                  else Some (True, unique_fd_close sock t3))"

subsection \<open>The two enumerations\<close>

text \<open>
  Reading \<^verbatim>\<open>ifindices[i]\<close> past the end of the array has no defined behaviour in the
  source; the model stops with a fault there.
\<close>

datatype fault = Out_of_bounds_read

text \<open>
  The \<^verbatim>\<open>for\<close> loop of both enumerations, from \<open>i\<close> on: \<open>bound\<close> is \<^verbatim>\<open>num\<close> in
  \<^verbatim>\<open>GetBridges\<close> and \<^verbatim>\<open>MAX_PORTS\<close> in \<^verbatim>\<open>GetInterfacesInBridge\<close>, and \<open>names\<close> is
  the caller's vector. A zero index is skipped before \<^verbatim>\<open>if_indextoname\<close> is called.
\<close>

function resolve_loop ::
  "kernel \<Rightarrow> ifindex list \<Rightarrow> int \<Rightarrow> nat \<Rightarrow> string list \<Rightarrow> syscall list
     \<Rightarrow> (fault + string list) \<times> syscall list" where
  "resolve_loop K ifindices bound i names t =
     (if int i < bound then
        (if length ifindices \<le> i then (Inl Out_of_bounds_read, t)
         else if ifindices ! i = 0 then resolve_loop K ifindices bound (Suc i) names t
         else
           (case indextoname_result K t (ifindices ! i) of
              None \<Rightarrow>
                resolve_loop K ifindices bound (Suc i) names
                  (t @ [Sys_if_indextoname (ifindices ! i)])
            | Some nm \<Rightarrow>
                resolve_loop K ifindices bound (Suc i) (names @ [nm])
                  (t @ [Sys_if_indextoname (ifindices ! i)])))
      else (Inr names, t))"
  by pat_completeness auto
termination
  by (relation "measure (\<lambda>(K, ifindices, bound, i, names, t). nat (bound - int i))") auto

declare resolve_loop.simps [simp del]

text \<open>
  \<open>uninit\<close> gives the contents of the local array \<^verbatim>\<open>ifindices\<close> before the
  \<^verbatim>\<open>memset\<close>: a local array without an initialiser holds whatever the stack held.
\<close>

definition GetBridges ::
  "kernel \<Rightarrow> (nat \<Rightarrow> ifindex) \<Rightarrow> string list \<Rightarrow> syscall list
     \<Rightarrow> (fault + bool \<times> string list) \<times> syscall list" where
  "GetBridges K uninit bridges t =
     (let sock = socket_result K t;
          t1 = t @ [Sys_socket]
      in if sock < 0 then (Inr (False, bridges), unique_fd_close sock t1)
         else
           let ifindices = memset_zero (map uninit [0..<MAX_PORTS]) MAX_PORTS;
               req = SIOCGIFBR BRCTL_GET_BRIDGES ifindices MAX_PORTS;
               r = ioctl_result K t1 sock req;
               t2 = t1 @ [Sys_ioctl sock req];
               num = ret r;
               ifindices' = copy_to_user (copied r) ifindices
           in case resolve_loop K ifindices' num 0 bridges t2 of
                (Inl f, t3) \<Rightarrow> (Inl f, t3)
              | (Inr bridges', t3) \<Rightarrow> (Inr (True, bridges'), unique_fd_close sock t3))"

definition GetInterfacesInBridge ::
  "kernel \<Rightarrow> (nat \<Rightarrow> ifindex) \<Rightarrow> string \<Rightarrow> string list \<Rightarrow> syscall list
     \<Rightarrow> (fault + bool \<times> string list) \<times> syscall list" where
  "GetInterfacesInBridge K uninit br_name interfaces t =
     (let sock = socket_result K t;
          t1 = t @ [Sys_socket]
      in if sock < 0 then (Inr (False, interfaces), unique_fd_close sock t1)
         else
           let ifindices = memset_zero (map uninit [0..<MAX_PORTS]) MAX_PORTS;
               req = SIOCDEVPRIVATE (strlcpy (c_str br_name) IFNAMSIZ)
                       BRCTL_GET_PORT_LIST ifindices MAX_PORTS;
               r = ioctl_result K t1 sock req;
               t2 = t1 @ [Sys_ioctl sock req];
               ifindices' = copy_to_user (copied r) ifindices
           in if ret r < 0 then (Inr (False, interfaces), unique_fd_close sock t2)
              else
                case resolve_loop K ifindices' (int MAX_PORTS) 0 interfaces t2 of
                  (Inl f, t3) \<Rightarrow> (Inl f, t3)
                | (Inr interfaces', t3) \<Rightarrow>
                    (Inr (True, interfaces'), unique_fd_close sock t3))"

subsection \<open>Names for what the operations compute on the way\<close>

text \<open>
  A reply asks for another attempt under \<^verbatim>\<open>TEMP_FAILURE_RETRY\<close> when the call returned
  \<^verbatim>\<open>-1\<close> with \<^verbatim>\<open>errno == EINTR\<close>. \<open>attempt K sock req t k\<close> is the reply to the
  attempt after \<open>k\<close> earlier ones, the first of them made after the calls \<open>t\<close>, and
  \<open>retry_ends_at K sock req t n\<close> says that attempt \<open>n\<close> is the first one that is not
  interrupted.
\<close>

definition interrupted :: "ioctl_reply \<Rightarrow> bool" where
  "interrupted r \<longleftrightarrow> ret r = - 1 \<and> errno r = EINTR"

definition attempt ::
  "kernel \<Rightarrow> int \<Rightarrow> ioctl_request \<Rightarrow> syscall list \<Rightarrow> nat \<Rightarrow> ioctl_reply" where
  "attempt K sock req t k = ioctl_result K (t @ replicate k (Sys_ioctl sock req)) sock req"

definition retry_ends_at ::
  "kernel \<Rightarrow> int \<Rightarrow> ioctl_request \<Rightarrow> syscall list \<Rightarrow> nat \<Rightarrow> bool" where
  "retry_ends_at K sock req t n \<longleftrightarrow>
     list_all (\<lambda>k. interrupted (attempt K sock req t k)) [0..<n] \<and>
     \<not> interrupted (attempt K sock req t n)"

fun is_ioctl :: "syscall \<Rightarrow> bool" where
  "is_ioctl (Sys_ioctl fd req) = True"
| "is_ioctl _ = False"

text \<open>
  The array \<^verbatim>\<open>ifindices\<close> after the \<^verbatim>\<open>memset\<close>, and for each enumeration the request
  it issues, the kernel's reply, the array after the kernel has written to it, and the
  system calls made once the \<^verbatim>\<open>ioctl\<close> has returned.
\<close>

definition ifindices_init :: "(nat \<Rightarrow> ifindex) \<Rightarrow> ifindex list" where
  "ifindices_init uninit = memset_zero (map uninit [0..<MAX_PORTS]) MAX_PORTS"

definition GetBridges_request :: "(nat \<Rightarrow> ifindex) \<Rightarrow> ioctl_request" where
  "GetBridges_request uninit = SIOCGIFBR BRCTL_GET_BRIDGES (ifindices_init uninit) MAX_PORTS"

definition GetBridges_reply :: "kernel \<Rightarrow> (nat \<Rightarrow> ifindex) \<Rightarrow> syscall list \<Rightarrow> ioctl_reply" where
  "GetBridges_reply K uninit t =
     ioctl_result K (t @ [Sys_socket]) (socket_result K t) (GetBridges_request uninit)"

definition GetBridges_ifindices ::
  "kernel \<Rightarrow> (nat \<Rightarrow> ifindex) \<Rightarrow> syscall list \<Rightarrow> ifindex list" where
  "GetBridges_ifindices K uninit t =
     copy_to_user (copied (GetBridges_reply K uninit t)) (ifindices_init uninit)"

definition GetBridges_calls ::
  "kernel \<Rightarrow> (nat \<Rightarrow> ifindex) \<Rightarrow> syscall list \<Rightarrow> syscall list" where
  "GetBridges_calls K uninit t =
     t @ [Sys_socket, Sys_ioctl (socket_result K t) (GetBridges_request uninit)]"

definition GetInterfaces_request :: "(nat \<Rightarrow> ifindex) \<Rightarrow> string \<Rightarrow> ioctl_request" where
  "GetInterfaces_request uninit br_name =
     SIOCDEVPRIVATE (strlcpy (c_str br_name) IFNAMSIZ) BRCTL_GET_PORT_LIST
       (ifindices_init uninit) MAX_PORTS"

definition GetInterfaces_reply ::
  "kernel \<Rightarrow> (nat \<Rightarrow> ifindex) \<Rightarrow> string \<Rightarrow> syscall list \<Rightarrow> ioctl_reply" where
  "GetInterfaces_reply K uninit br_name t =
     ioctl_result K (t @ [Sys_socket]) (socket_result K t)
       (GetInterfaces_request uninit br_name)"

definition GetInterfaces_ifindices ::
  "kernel \<Rightarrow> (nat \<Rightarrow> ifindex) \<Rightarrow> string \<Rightarrow> syscall list \<Rightarrow> ifindex list" where
  "GetInterfaces_ifindices K uninit br_name t =
     copy_to_user (copied (GetInterfaces_reply K uninit br_name t)) (ifindices_init uninit)"

definition GetInterfaces_calls ::
  "kernel \<Rightarrow> (nat \<Rightarrow> ifindex) \<Rightarrow> string \<Rightarrow> syscall list \<Rightarrow> syscall list" where
  "GetInterfaces_calls K uninit br_name t =
     t @ [Sys_socket, Sys_ioctl (socket_result K t) (GetInterfaces_request uninit br_name)]"

text \<open>
  What the specification says of the names an enumeration returns: each nonzero index of
  the first \<open>n\<close> slots is resolved to a name, in the order of the slots, and an index that
  does not resolve is skipped. Slot \<open>i\<close> is resolved after the lookups of the nonzero
  slots before it, which \<open>lookups_before\<close> appends to the calls \<open>t\<close> made until then.
\<close>

definition lookups_before :: "syscall list \<Rightarrow> ifindex list \<Rightarrow> nat \<Rightarrow> syscall list" where
  "lookups_before t buf i =
     t @ map Sys_if_indextoname (filter (\<lambda>x. x \<noteq> 0) (take i buf))"

definition resolve_at :: "kernel \<Rightarrow> syscall list \<Rightarrow> ifindex list \<Rightarrow> nat \<Rightarrow> string option" where
  "resolve_at K t buf i =
     (if buf ! i = 0 then None
      else indextoname_result K (lookups_before t buf i) (buf ! i))"

definition resolved_names ::
  "kernel \<Rightarrow> syscall list \<Rightarrow> ifindex list \<Rightarrow> nat \<Rightarrow> string list" where
  "resolved_names K t buf n = List.map_filter (resolve_at K t buf) [0..<n]"

subsection \<open>Kernels and stack contents to run the operations on\<close>

text \<open>
  A kernel with a bridge \<^verbatim>\<open>br0\<close> (index 3) that has the port \<^verbatim>\<open>wlan0\<close> (index 7).
  The bridge query copies as many indices as there are bridges and returns their number;
  the port query copies a whole table of 1024 entries and returns its size.
\<close>

definition EBADF :: int where
  "EBADF = 9"

definition interface_table :: "ifindex \<Rightarrow> string option" where
  "interface_table i =
     (if i = 3 then Some ''br0'' else if i = 7 then Some ''wlan0'' else None)"

definition kernel_demo :: kernel where
  "kernel_demo =
     \<lparr> socket_result = (\<lambda>h. 3),
       ioctl_result = (\<lambda>h fd req.
          case req of
            SIOCGIFBR op buf cap \<Rightarrow> \<lparr> ret = 1, errno = 0, copied = [3] \<rparr>
          | SIOCDEVPRIVATE nm op buf cap \<Rightarrow>
              \<lparr> ret = 1024, errno = 0, copied = [0, 7] @ replicate 1022 0 \<rparr>
          | _ \<Rightarrow> \<lparr> ret = 0, errno = 0, copied = [] \<rparr>),
       nametoindex_result = (\<lambda>h nm. if nm = ''wlan0'' then 7 else 0),
       indextoname_result = (\<lambda>h. interface_table) \<rparr>"

text \<open>Stack contents with a stale 7 where slot 256 of \<^verbatim>\<open>ifindices\<close> will be.\<close>

definition stack_demo :: "nat \<Rightarrow> ifindex" where
  "stack_demo i = (if i = 256 then 7 else 0)"

text \<open>A kernel whose first \<^verbatim>\<open>ioctl\<close> is interrupted by a signal.\<close>

definition kernel_interrupted_once :: kernel where
  "kernel_interrupted_once =
     \<lparr> socket_result = (\<lambda>h. 3),
       ioctl_result = (\<lambda>h fd req.
          if list_ex is_ioctl h then \<lparr> ret = 0, errno = 0, copied = [] \<rparr>
          else \<lparr> ret = - 1, errno = EINTR, copied = [] \<rparr>),
       nametoindex_result = (\<lambda>h nm. if nm = ''wlan0'' then 7 else 0),
       indextoname_result = (\<lambda>h. interface_table) \<rparr>"

text \<open>
  A kernel that has no descriptor left: \<^verbatim>\<open>socket\<close> returns \<^verbatim>\<open>-1\<close> and every
  \<^verbatim>\<open>ioctl\<close> fails with \<^verbatim>\<open>EBADF\<close>.
\<close>

definition kernel_no_socket :: kernel where
  "kernel_no_socket =
     \<lparr> socket_result = (\<lambda>h. - 1),
       ioctl_result = (\<lambda>h fd req. \<lparr> ret = - 1, errno = EBADF, copied = [] \<rparr>),
       nametoindex_result = (\<lambda>h nm. if nm = ''wlan0'' then 7 else 0),
       indextoname_result = (\<lambda>h. interface_table) \<rparr>"

text \<open>
  A kernel without bridges or interfaces: every \<^verbatim>\<open>ioctl\<close> fails with \<^verbatim>\<open>ENODEV\<close>
  and no name or index resolves.
\<close>

definition ENODEV :: int where
  "ENODEV = 19"

definition kernel_no_bridge :: kernel where
  "kernel_no_bridge =
     \<lparr> socket_result = (\<lambda>h. 3),
       ioctl_result = (\<lambda>h fd req. \<lparr> ret = - 1, errno = ENODEV, copied = [] \<rparr>),
       nametoindex_result = (\<lambda>h nm. 0),
       indextoname_result = (\<lambda>h i. None) \<rparr>"

text \<open>
  A kernel with more bridges than the array has slots: the bridge query fills all 1024
  slots, with the indices 1 to 1024, and returns 1024. The bridge with index \<open>i\<close> is named
  \<^verbatim>\<open>br\<close> followed by the four decimal digits of \<open>i\<close>.
\<close>

definition bridge_name :: "ifindex \<Rightarrow> string" where
  "bridge_name i = ''br'' @ map (\<lambda>d. ''0123456789'' ! (unat i div d mod 10)) [1000, 100, 10, 1]"

definition crowded_indices :: "ifindex list" where
  "crowded_indices = map of_nat [1..<1025]"

definition kernel_crowded :: kernel where
  "kernel_crowded =
     \<lparr> socket_result = (\<lambda>h. 3),
       ioctl_result = (\<lambda>h fd req. \<lparr> ret = 1024, errno = 0, copied = crowded_indices \<rparr>),
       nametoindex_result = (\<lambda>h nm. 0),
       indextoname_result = (\<lambda>h i. Some (bridge_name i)) \<rparr>"

section \<open>Lemmas about the model\<close>

subsection \<open>The array of indices\<close>

lemma length_ifindices_init: "length (ifindices_init u) = MAX_PORTS"
  by (simp add: ifindices_init_def memset_zero_def MAX_PORTS_def sizeof_int_def)

lemma ifindices_init_eq: "ifindices_init u = replicate 256 0 @ map u [256..<1024]"
  by (simp add: ifindices_init_def memset_zero_def MAX_PORTS_def sizeof_int_def drop_map)

lemma length_copy_to_user: "length (copy_to_user src dst) = length dst"
  by (simp add: copy_to_user_def)

subsection \<open>The retry loop\<close>

lemma retry_unfold:
  "TEMP_FAILURE_RETRY_ioctl K sock req t =
     (if interrupted (ioctl_result K t sock req)
      then TEMP_FAILURE_RETRY_ioctl K sock req (t @ [Sys_ioctl sock req])
      else Some (ret (ioctl_result K t sock req), t @ [Sys_ioctl sock req]))"
  by (subst TEMP_FAILURE_RETRY_ioctl.simps) (simp add: interrupted_def Let_def)

lemma retry_from:
  assumes "k \<le> n"
    and "\<forall>j<n. interrupted (attempt K sock req t j)"
    and "\<not> interrupted (attempt K sock req t n)"
  shows "TEMP_FAILURE_RETRY_ioctl K sock req (t @ replicate k (Sys_ioctl sock req)) =
           Some (ret (attempt K sock req t n), t @ replicate (Suc n) (Sys_ioctl sock req))"
  using assms
proof (induction k rule: inc_induct)
  case base
  from base
  have ni: "\<not> interrupted (ioctl_result K (t @ replicate n (Sys_ioctl sock req)) sock req)"
    by (simp add: attempt_def)
  show ?case
    by (subst retry_unfold) (simp add: ni attempt_def replicate_append_same)
next
  case (step j)
  from step.hyps step.prems
  have i: "interrupted (ioctl_result K (t @ replicate j (Sys_ioctl sock req)) sock req)"
    by (simp add: attempt_def)
  show ?case
    using step.IH [OF step.prems]
    by (subst retry_unfold) (simp add: i replicate_append_same)
qed

lemma retry_result:
  assumes "retry_ends_at K sock req t n"
  shows "TEMP_FAILURE_RETRY_ioctl K sock req t =
           Some (ret (attempt K sock req t n), t @ replicate (Suc n) (Sys_ioctl sock req))"
  using retry_from [of 0 n K sock req t] assms
  by (simp add: retry_ends_at_def list_all_iff)

lemma retry_returns_only_if_uninterrupted:
  assumes "TEMP_FAILURE_RETRY_ioctl K sock req t = Some y"
  shows "\<exists>n. \<not> interrupted (attempt K sock req t n)"
proof (rule TEMP_FAILURE_RETRY_ioctl.raw_induct
         [where P = "\<lambda>K sock req t y. \<exists>n. \<not> interrupted (attempt K sock req t n)",
          OF _ assms])
  fix rec K sock req t and y :: "int \<times> syscall list"
  assume IH: "\<And>K sock req t y. rec K sock req t = Some y \<Longrightarrow>
                \<exists>n. \<not> interrupted (attempt K sock req t n)"
    and body: "(let r = ioctl_result K t sock req; t' = t @ [Sys_ioctl sock req]
                in if ret r = - 1 \<and> errno r = EINTR then rec K sock req t'
                   else Some (ret r, t')) = Some y"
  show "\<exists>n. \<not> interrupted (attempt K sock req t n)"
  proof (cases "interrupted (ioctl_result K t sock req)")
    case False
    then have "\<not> interrupted (attempt K sock req t 0)" by (simp add: attempt_def)
    then show ?thesis ..
  next
    case True
    with body have "rec K sock req (t @ [Sys_ioctl sock req]) = Some y"
      by (simp add: interrupted_def Let_def)
    from IH [OF this] obtain n
      where "\<not> interrupted (attempt K sock req (t @ [Sys_ioctl sock req]) n)" ..
    then have "\<not> interrupted (attempt K sock req t (Suc n))"
      by (simp add: attempt_def replicate_append_same)
    then show ?thesis ..
  qed
qed

lemma retry_forever:
  assumes "\<forall>j. interrupted (attempt K sock req t j)"
  shows "TEMP_FAILURE_RETRY_ioctl K sock req t = None"
  using assms retry_returns_only_if_uninterrupted [of K sock req t]
  by (cases "TEMP_FAILURE_RETRY_ioctl K sock req t") auto

lemma createBridge_never_returns:
  assumes "\<forall>j. interrupted (attempt K (socket_result K t) (SIOCBRADDBR (c_str br_name))
                              (t @ [Sys_socket]) j)"
  shows "createBridge K br_name t = None"
  by (simp add: createBridge_def Let_def retry_forever [OF assms])

subsection \<open>The resolution loop\<close>

lemma lookups_before_Suc:
  "i < length buf \<Longrightarrow>
   lookups_before t buf (Suc i) =
     lookups_before t buf i @ (if buf ! i = 0 then [] else [Sys_if_indextoname (buf ! i)])"
  by (simp add: lookups_before_def take_Suc_conv_app_nth)

lemma resolve_loop_from:
  assumes "i \<le> nat bound" and "nat bound \<le> length buf"
  shows "resolve_loop K buf bound i names (lookups_before t buf i) =
           (Inr (names @ List.map_filter (resolve_at K t buf) [i..<nat bound]),
            lookups_before t buf (nat bound))"
  using assms
proof (induction i arbitrary: names rule: inc_induct)
  case base
  then show ?case by (subst resolve_loop.simps) (simp add: List.map_filter_simps)
next
  case (step k)
  from step.hyps have lt: "int k < bound" by linarith
  from step.hyps step.prems have inb: "k < length buf" by linarith
  have upt: "[k..<nat bound] = k # [Suc k..<nat bound]"
    using step.hyps by (simp add: upt_conv_Cons)
  show ?case
  proof (cases "buf ! k = 0")
    case True
    then have ra: "resolve_at K t buf k = None" by (simp add: resolve_at_def)
    from True show ?thesis
      using lt inb step.IH [OF step.prems, of names]
      by (subst resolve_loop.simps)
         (simp add: lookups_before_Suc upt ra List.map_filter_simps)
  next
    case nz: False
    show ?thesis
    proof (cases "indextoname_result K (lookups_before t buf k) (buf ! k)")
      case None
      with nz have ra: "resolve_at K t buf k = None" by (simp add: resolve_at_def)
      from None show ?thesis
        using nz lt inb step.IH [OF step.prems, of names]
        by (subst resolve_loop.simps)
           (simp add: lookups_before_Suc upt ra List.map_filter_simps)
    next
      case (Some nm)
      with nz have ra: "resolve_at K t buf k = Some nm" by (simp add: resolve_at_def)
      from Some show ?thesis
        using nz lt inb step.IH [OF step.prems, of "names @ [nm]"]
        by (subst resolve_loop.simps)
           (simp add: lookups_before_Suc upt ra List.map_filter_simps)
    qed
  qed
qed

lemma resolve_loop_closed:
  assumes "nat bound \<le> length buf"
  shows "resolve_loop K buf bound 0 names t =
           (Inr (names @ resolved_names K t buf (nat bound)), lookups_before t buf (nat bound))"
  using resolve_loop_from [of 0 bound buf K names t] assms
  by (simp add: resolved_names_def lookups_before_def)

lemma resolve_loop_past_end:
  assumes "i \<le> length buf" and "int (length buf) < bound"
  shows "fst (resolve_loop K buf bound i names t) = Inl Out_of_bounds_read"
  using assms
proof (induction i arbitrary: names t rule: inc_induct)
  case base
  then show ?case by (subst resolve_loop.simps) simp
next
  case (step k)
  from step.hyps step.prems have lt: "int k < bound" and inb: "\<not> length buf \<le> k" by linarith+
  show ?case
  proof (cases "buf ! k = 0")
    case True
    with lt inb step.IH [OF step.prems, of names t] show ?thesis
      by (subst resolve_loop.simps) simp
  next
    case nz: False
    show ?thesis
    proof (cases "indextoname_result K t (buf ! k)")
      case None
      with nz lt inb step.IH [OF step.prems, of names "t @ [Sys_if_indextoname (buf ! k)]"]
      show ?thesis by (subst resolve_loop.simps) simp
    next
      case (Some nm)
      with nz lt inb
        step.IH [OF step.prems, of "names @ [nm]" "t @ [Sys_if_indextoname (buf ! k)]"]
      show ?thesis by (subst resolve_loop.simps) simp
    qed
  qed
qed

lemma resolve_loop_steps:
  "(\<exists>new. fst (resolve_loop K buf bound i names t) = Inr (names @ new)) \<or>
   fst (resolve_loop K buf bound i names t) = Inl Out_of_bounds_read"
proof (induction K buf bound i names t rule: resolve_loop.induct)
  case (1 K ifindices bound i names t)
  show ?case
  proof (cases "int i < bound")
    case False
    then show ?thesis by (subst (1 2) resolve_loop.simps) simp
  next
    case lt: True
    show ?thesis
    proof (cases "length ifindices \<le> i")
      case True
      with lt show ?thesis by (subst (1 2) resolve_loop.simps) simp
    next
      case inb: False
      show ?thesis
      proof (cases "ifindices ! i = 0")
        case True
        with lt inb "1.IH"(1) show ?thesis by (subst (1 2) resolve_loop.simps) simp
      next
        case nz: False
        show ?thesis
        proof (cases "indextoname_result K t (ifindices ! i)")
          case None
          with lt inb nz "1.IH"(2) show ?thesis by (subst (1 2) resolve_loop.simps) simp
        next
          case (Some nm)
          with lt inb nz "1.IH"(3) [of nm] show ?thesis
            by (subst (1 2) resolve_loop.simps) auto
        qed
      qed
    qed
  qed
qed

lemma resolve_loop_keeps_ioctls:
  "filter is_ioctl (snd (resolve_loop K buf bound i names t)) = filter is_ioctl t"
proof (induction K buf bound i names t rule: resolve_loop.induct)
  case (1 K ifindices bound i names t)
  show ?case
  proof (cases "int i < bound")
    case False
    then show ?thesis by (subst resolve_loop.simps) simp
  next
    case lt: True
    show ?thesis
    proof (cases "length ifindices \<le> i")
      case True
      with lt show ?thesis by (subst resolve_loop.simps) simp
    next
      case inb: False
      show ?thesis
      proof (cases "ifindices ! i = 0")
        case True
        with lt inb "1.IH"(1) show ?thesis by (subst resolve_loop.simps) simp
      next
        case nz: False
        show ?thesis
        proof (cases "indextoname_result K t (ifindices ! i)")
          case None
          with lt inb nz "1.IH"(2) show ?thesis by (subst resolve_loop.simps) simp
        next
          case (Some nm)
          with lt inb nz "1.IH"(3) [of nm] show ?thesis by (subst resolve_loop.simps) simp
        qed
      qed
    qed
  qed
qed

subsection \<open>The specification's list of names\<close>

lemma length_map_filter_le: "length (List.map_filter f xs) \<le> length xs"
  by (induction xs) (auto simp: List.map_filter_simps split: option.splits)

lemma length_resolved_names: "length (resolved_names K t buf n) \<le> n"
  using length_map_filter_le [of "resolve_at K t buf" "[0..<n]"]
  by (simp add: resolved_names_def)

lemma map_filter_nonzero_take:
  assumes "n \<le> length buf"
  shows "List.map_filter (\<lambda>i. if buf ! i = 0 then None else tbl (buf ! i)) [0..<n] =
         List.map_filter tbl (filter (\<lambda>x. x \<noteq> 0) (take n buf))"
  using assms
proof (induction n)
  case 0
  then show ?case by (simp add: List.map_filter_simps)
next
  case (Suc n)
  then show ?case
    by (simp add: take_Suc_conv_app_nth List.map_filter_def)
qed

lemma resolved_names_stable:
  assumes "\<And>h. indextoname_result K h = tbl" and "n \<le> length buf"
  shows "resolved_names K t buf n = List.map_filter tbl (filter (\<lambda>x. x \<noteq> 0) (take n buf))"
proof -
  have "resolve_at K t buf = (\<lambda>i. if buf ! i = 0 then None else tbl (buf ! i))"
    by (rule ext) (simp add: resolve_at_def assms(1))
  then show ?thesis
    using map_filter_nonzero_take [OF assms(2), of tbl] by (simp add: resolved_names_def)
qed

subsection \<open>The four operations that change the bridge table\<close>

lemma createBridge_result:
  assumes "retry_ends_at K (socket_result K t) (SIOCBRADDBR (c_str br_name)) (t @ [Sys_socket]) n"
  shows "createBridge K br_name t =
     Some (ret (attempt K (socket_result K t) (SIOCBRADDBR (c_str br_name))
                  (t @ [Sys_socket]) n) = 0,
           unique_fd_close (socket_result K t)
             (t @ [Sys_socket] @
              replicate (Suc n) (Sys_ioctl (socket_result K t) (SIOCBRADDBR (c_str br_name)))))"
  by (simp add: createBridge_def Let_def retry_result [OF assms])

lemma deleteBridge_result:
  assumes "retry_ends_at K (socket_result K t) (SIOCBRDELBR (c_str br_name)) (t @ [Sys_socket]) n"
  shows "deleteBridge K br_name t =
     Some (ret (attempt K (socket_result K t) (SIOCBRDELBR (c_str br_name))
                  (t @ [Sys_socket]) n) = 0,
           unique_fd_close (socket_result K t)
             (t @ [Sys_socket] @
              replicate (Suc n) (Sys_ioctl (socket_result K t) (SIOCBRDELBR (c_str br_name)))))"
  by (simp add: deleteBridge_def Let_def retry_result [OF assms])

lemma strlcpy_IFNAMSIZ: "strlcpy s IFNAMSIZ = take 15 s"
  by (simp add: strlcpy_def IFNAMSIZ_def)

lemma addIfaceToBridge_absent:
  "nametoindex_result K t (c_str if_name) = 0 \<Longrightarrow>
   addIfaceToBridge K br_name if_name t = Some (False, t @ [Sys_if_nametoindex (c_str if_name)])"
  by (simp add: addIfaceToBridge_def Let_def)

lemma removeIfaceFromBridge_absent:
  "nametoindex_result K t (c_str if_name) = 0 \<Longrightarrow>
   removeIfaceFromBridge K br_name if_name t =
     Some (False, t @ [Sys_if_nametoindex (c_str if_name)])"
  by (simp add: removeIfaceFromBridge_def Let_def)

lemma addIfaceToBridge_result:
  assumes "nametoindex_result K t (c_str if_name) \<noteq> 0"
    and "retry_ends_at K (socket_result K (t @ [Sys_if_nametoindex (c_str if_name)]))
           (SIOCBRADDIF (take 15 (c_str br_name)) (nametoindex_result K t (c_str if_name)))
           (t @ [Sys_if_nametoindex (c_str if_name), Sys_socket]) n"
  shows "addIfaceToBridge K br_name if_name t =
     Some (ret (attempt K (socket_result K (t @ [Sys_if_nametoindex (c_str if_name)]))
                  (SIOCBRADDIF (take 15 (c_str br_name)) (nametoindex_result K t (c_str if_name)))
                  (t @ [Sys_if_nametoindex (c_str if_name), Sys_socket]) n) = 0,
           unique_fd_close (socket_result K (t @ [Sys_if_nametoindex (c_str if_name)]))
             (t @ [Sys_if_nametoindex (c_str if_name), Sys_socket] @
              replicate (Suc n)
                (Sys_ioctl (socket_result K (t @ [Sys_if_nametoindex (c_str if_name)]))
                   (SIOCBRADDIF (take 15 (c_str br_name))
                      (nametoindex_result K t (c_str if_name))))))"
  using assms(1) retry_result [OF assms(2)]
  by (simp add: addIfaceToBridge_def Let_def strlcpy_IFNAMSIZ)

lemma removeIfaceFromBridge_result:
  assumes "nametoindex_result K t (c_str if_name) \<noteq> 0"
    and "retry_ends_at K (socket_result K (t @ [Sys_if_nametoindex (c_str if_name)]))
           (SIOCBRDELIF (take 15 (c_str br_name)) (nametoindex_result K t (c_str if_name)))
           (t @ [Sys_if_nametoindex (c_str if_name), Sys_socket]) n"
  shows "removeIfaceFromBridge K br_name if_name t =
     Some (ret (attempt K (socket_result K (t @ [Sys_if_nametoindex (c_str if_name)]))
                  (SIOCBRDELIF (take 15 (c_str br_name)) (nametoindex_result K t (c_str if_name)))
                  (t @ [Sys_if_nametoindex (c_str if_name), Sys_socket]) n) = 0,
           unique_fd_close (socket_result K (t @ [Sys_if_nametoindex (c_str if_name)]))
             (t @ [Sys_if_nametoindex (c_str if_name), Sys_socket] @
              replicate (Suc n)
                (Sys_ioctl (socket_result K (t @ [Sys_if_nametoindex (c_str if_name)]))
                   (SIOCBRDELIF (take 15 (c_str br_name))
                      (nametoindex_result K t (c_str if_name))))))"
  using assms(1) retry_result [OF assms(2)]
  by (simp add: removeIfaceFromBridge_def Let_def strlcpy_IFNAMSIZ)

subsection \<open>The two enumerations\<close>

lemma GetBridges_no_socket:
  "socket_result K t < 0 \<Longrightarrow>
   GetBridges K u bridges t =
     (Inr (False, bridges), unique_fd_close (socket_result K t) (t @ [Sys_socket]))"
  by (simp add: GetBridges_def Let_def)

lemma GetBridges_unfold:
  assumes "0 \<le> socket_result K t"
  shows "GetBridges K u bridges t =
      (case resolve_loop K (GetBridges_ifindices K u t) (ret (GetBridges_reply K u t)) 0 bridges
                (GetBridges_calls K u t) of
         (Inl f, t3) \<Rightarrow> (Inl f, t3)
       | (Inr bridges', t3) \<Rightarrow> (Inr (True, bridges'), unique_fd_close (socket_result K t) t3))"
  using assms
  by (simp add: GetBridges_def Let_def GetBridges_ifindices_def GetBridges_reply_def
        GetBridges_request_def GetBridges_calls_def ifindices_init_def)

lemma GetBridges_in_range:
  assumes "0 \<le> socket_result K t"
    and "ret (GetBridges_reply K u t) \<le> int MAX_PORTS"
  shows "GetBridges K u bridges t =
     (Inr (True, bridges @ resolved_names K (GetBridges_calls K u t) (GetBridges_ifindices K u t)
                             (nat (ret (GetBridges_reply K u t)))),
      unique_fd_close (socket_result K t)
        (lookups_before (GetBridges_calls K u t) (GetBridges_ifindices K u t)
           (nat (ret (GetBridges_reply K u t)))))"
proof -
  have len: "nat (ret (GetBridges_reply K u t)) \<le> length (GetBridges_ifindices K u t)"
    using assms(2) by (simp add: GetBridges_ifindices_def length_copy_to_user length_ifindices_init)
  show ?thesis
    by (simp only: GetBridges_unfold [OF assms(1)] resolve_loop_closed [OF len] prod.case sum.case)
qed

lemma GetBridges_past_capacity:
  assumes "0 \<le> socket_result K t"
    and "int MAX_PORTS < ret (GetBridges_reply K u t)"
  shows "fst (GetBridges K u bridges t) = Inl Out_of_bounds_read"
proof -
  have "int (length (GetBridges_ifindices K u t)) < ret (GetBridges_reply K u t)"
    using assms(2) by (simp add: GetBridges_ifindices_def length_copy_to_user length_ifindices_init)
  from resolve_loop_past_end [OF _ this, of 0 K bridges "GetBridges_calls K u t"]
  show ?thesis
    by (cases "resolve_loop K (GetBridges_ifindices K u t) (ret (GetBridges_reply K u t)) 0
                 bridges (GetBridges_calls K u t)")
       (simp add: GetBridges_unfold [OF assms(1)])
qed

lemma GetBridges_never_fails_with_socket:
  assumes "0 \<le> socket_result K t"
  shows "fst (GetBridges K u bridges t) \<noteq> Inr (False, out)"
  by (simp add: GetBridges_unfold [OF assms] split: prod.splits sum.splits)

lemma GetBridges_appends:
  "(\<exists>ok new. fst (GetBridges K u bridges t) = Inr (ok, bridges @ new)) \<or>
   fst (GetBridges K u bridges t) = Inl Out_of_bounds_read"
proof (cases "socket_result K t < 0")
  case True
  then have "fst (GetBridges K u bridges t) = Inr (False, bridges @ [])"
    by (simp add: GetBridges_no_socket)
  then show ?thesis by blast
next
  case False
  then have sock: "0 \<le> socket_result K t" by simp
  from resolve_loop_steps [of K "GetBridges_ifindices K u t" "ret (GetBridges_reply K u t)" 0
         bridges "GetBridges_calls K u t"]
  show ?thesis
    by (auto simp: GetBridges_unfold [OF sock] split: prod.splits sum.splits)
qed

lemma GetBridges_ioctls:
  "filter is_ioctl (snd (GetBridges K u bridges t)) =
     filter is_ioctl t @
     (if socket_result K t < 0 then []
      else [Sys_ioctl (socket_result K t) (GetBridges_request u)])"
proof (cases "socket_result K t < 0")
  case True
  then show ?thesis by (simp add: GetBridges_no_socket unique_fd_close_def)
next
  case False
  then have sock: "0 \<le> socket_result K t" by simp
  from resolve_loop_keeps_ioctls [of K "GetBridges_ifindices K u t"
         "ret (GetBridges_reply K u t)" 0 bridges "GetBridges_calls K u t"]
  show ?thesis
    using False
    by (auto simp: GetBridges_unfold [OF sock] GetBridges_calls_def unique_fd_close_def
          split: prod.splits sum.splits)
qed

lemma GetInterfacesInBridge_no_socket:
  "socket_result K t < 0 \<Longrightarrow>
   GetInterfacesInBridge K u br_name interfaces t =
     (Inr (False, interfaces), unique_fd_close (socket_result K t) (t @ [Sys_socket]))"
  by (simp add: GetInterfacesInBridge_def Let_def)

lemma GetInterfacesInBridge_ioctl_failed:
  assumes "0 \<le> socket_result K t"
    and "ret (GetInterfaces_reply K u br_name t) < 0"
  shows "GetInterfacesInBridge K u br_name interfaces t =
     (Inr (False, interfaces),
      unique_fd_close (socket_result K t) (GetInterfaces_calls K u br_name t))"
  using assms
  by (simp add: GetInterfacesInBridge_def Let_def GetInterfaces_reply_def
        GetInterfaces_request_def GetInterfaces_calls_def ifindices_init_def)

lemma GetInterfacesInBridge_ioctl_ok:
  assumes "0 \<le> socket_result K t"
    and "0 \<le> ret (GetInterfaces_reply K u br_name t)"
  shows "GetInterfacesInBridge K u br_name interfaces t =
     (Inr (True, interfaces @ resolved_names K (GetInterfaces_calls K u br_name t)
                                (GetInterfaces_ifindices K u br_name t) MAX_PORTS),
      unique_fd_close (socket_result K t)
        (lookups_before (GetInterfaces_calls K u br_name t)
           (GetInterfaces_ifindices K u br_name t) MAX_PORTS))"
proof -
  have len: "nat (int MAX_PORTS) \<le> length (GetInterfaces_ifindices K u br_name t)"
    by (simp add: GetInterfaces_ifindices_def length_copy_to_user length_ifindices_init)
  have loop: "resolve_loop K (GetInterfaces_ifindices K u br_name t) (int MAX_PORTS) 0 interfaces
                (GetInterfaces_calls K u br_name t) =
              (Inr (interfaces @ resolved_names K (GetInterfaces_calls K u br_name t)
                                   (GetInterfaces_ifindices K u br_name t) MAX_PORTS),
               lookups_before (GetInterfaces_calls K u br_name t)
                 (GetInterfaces_ifindices K u br_name t) MAX_PORTS)"
    using resolve_loop_closed [OF len] by simp
  have unf: "GetInterfacesInBridge K u br_name interfaces t =
      (case resolve_loop K (GetInterfaces_ifindices K u br_name t) (int MAX_PORTS) 0 interfaces
                (GetInterfaces_calls K u br_name t) of
         (Inl f, t3) \<Rightarrow> (Inl f, t3)
       | (Inr interfaces', t3) \<Rightarrow>
           (Inr (True, interfaces'), unique_fd_close (socket_result K t) t3))"
    using assms
    by (simp add: GetInterfacesInBridge_def Let_def GetInterfaces_ifindices_def
          GetInterfaces_reply_def GetInterfaces_request_def GetInterfaces_calls_def
          ifindices_init_def)
  show ?thesis by (simp only: unf loop prod.case sum.case)
qed

lemma filter_is_ioctl_lookups:
  "filter is_ioctl (lookups_before t buf n) = filter is_ioctl t"
  by (simp add: lookups_before_def filter_map o_def)

lemma GetInterfacesInBridge_ioctls:
  "filter is_ioctl (snd (GetInterfacesInBridge K u br_name interfaces t)) =
     filter is_ioctl t @
     (if socket_result K t < 0 then []
      else [Sys_ioctl (socket_result K t) (GetInterfaces_request u br_name)])"
proof (cases "socket_result K t < 0")
  case True
  then show ?thesis by (simp add: GetInterfacesInBridge_no_socket unique_fd_close_def)
next
  case False
  then have sock: "0 \<le> socket_result K t" by simp
  show ?thesis
  proof (cases "ret (GetInterfaces_reply K u br_name t) < 0")
    case True
    with False show ?thesis
      by (simp add: GetInterfacesInBridge_ioctl_failed [OF sock True] unique_fd_close_def
            GetInterfaces_calls_def)
  next
    case nf: False
    then have ok: "0 \<le> ret (GetInterfaces_reply K u br_name t)" by simp
    from False show ?thesis
      by (simp add: GetInterfacesInBridge_ioctl_ok [OF sock ok] unique_fd_close_def
            filter_is_ioctl_lookups GetInterfaces_calls_def)
  qed
qed

subsection \<open>The operations on the example kernels\<close>

lemma kernel_demo_simps:
  "socket_result kernel_demo h = 3"
  "ioctl_result kernel_demo h fd (SIOCGIFBR op buf cap) = \<lparr> ret = 1, errno = 0, copied = [3] \<rparr>"
  "ioctl_result kernel_demo h fd (SIOCDEVPRIVATE nm op buf cap) =
     \<lparr> ret = 1024, errno = 0, copied = [0, 7] @ replicate 1022 0 \<rparr>"
  "nametoindex_result kernel_demo h nm = (if nm = ''wlan0'' then 7 else 0)"
  "indextoname_result kernel_demo h = interface_table"
  by (simp_all add: kernel_demo_def)


lemma GetBridges_ifindices_demo:
  "GetBridges_ifindices kernel_demo stack_demo t = 3 # replicate 255 0 @ map stack_demo [256..<1024]"
proof -
  have "drop 1 (replicate 256 (0::ifindex)) = replicate 255 0" by simp
  then show ?thesis
    by (simp add: GetBridges_ifindices_def GetBridges_reply_def GetBridges_request_def
          kernel_demo_simps copy_to_user_def ifindices_init_eq del: upt_rec_numeral)
qed

lemma GetBridges_demo:
  "GetBridges kernel_demo stack_demo bridges [] =
     (Inr (True, bridges @ [''br0'']),
      [Sys_socket, Sys_ioctl 3 (GetBridges_request stack_demo), Sys_if_indextoname 3,
       Sys_close 3])"
proof -
  have sock: "0 \<le> socket_result kernel_demo []" by (simp add: kernel_demo_simps)
  have r: "ret (GetBridges_reply kernel_demo stack_demo []) = 1"
    by (simp add: GetBridges_reply_def GetBridges_request_def kernel_demo_simps)
  then have le: "ret (GetBridges_reply kernel_demo stack_demo []) \<le> int MAX_PORTS"
    by (simp add: MAX_PORTS_def)
  have names: "resolved_names kernel_demo (GetBridges_calls kernel_demo stack_demo [])
                 (GetBridges_ifindices kernel_demo stack_demo []) (Suc 0) = [''br0'']"
    by (subst resolved_names_stable [where tbl = interface_table])
       (simp_all add: kernel_demo_simps GetBridges_ifindices_demo interface_table_def
          List.map_filter_simps del: upt_rec_numeral)
  have calls: "lookups_before (GetBridges_calls kernel_demo stack_demo [])
                 (GetBridges_ifindices kernel_demo stack_demo []) (Suc 0) =
               [Sys_socket, Sys_ioctl 3 (GetBridges_request stack_demo), Sys_if_indextoname 3]"
    by (simp add: lookups_before_def GetBridges_calls_def GetBridges_ifindices_demo
          kernel_demo_simps del: upt_rec_numeral)
  show ?thesis
    by (simp add: GetBridges_in_range [OF sock le] r names calls unique_fd_close_def
          kernel_demo_simps)
qed


lemma GetInterfaces_ifindices_demo:
  "GetInterfaces_ifindices kernel_demo stack_demo br_name t = [0, 7] @ replicate 1022 0"
  by (simp add: GetInterfaces_ifindices_def GetInterfaces_reply_def GetInterfaces_request_def
        kernel_demo_simps copy_to_user_def length_ifindices_init MAX_PORTS_def)

lemma GetInterfacesInBridge_demo:
  "GetInterfacesInBridge kernel_demo stack_demo br_name interfaces [] =
     (Inr (True, interfaces @ [''wlan0'']),
      [Sys_socket, Sys_ioctl 3 (GetInterfaces_request stack_demo br_name),
       Sys_if_indextoname 7, Sys_close 3])"
proof -
  have sock: "0 \<le> socket_result kernel_demo []" by (simp add: kernel_demo_simps)
  have r: "0 \<le> ret (GetInterfaces_reply kernel_demo stack_demo br_name [])"
    by (simp add: GetInterfaces_reply_def GetInterfaces_request_def kernel_demo_simps)
  have names: "resolved_names kernel_demo (GetInterfaces_calls kernel_demo stack_demo br_name [])
                 (GetInterfaces_ifindices kernel_demo stack_demo br_name []) MAX_PORTS
               = [''wlan0'']"
    by (subst resolved_names_stable [where tbl = interface_table])
       (simp_all add: kernel_demo_simps GetInterfaces_ifindices_demo interface_table_def
          List.map_filter_simps MAX_PORTS_def)
  have calls: "lookups_before (GetInterfaces_calls kernel_demo stack_demo br_name [])
                 (GetInterfaces_ifindices kernel_demo stack_demo br_name []) MAX_PORTS =
               [Sys_socket, Sys_ioctl 3 (GetInterfaces_request stack_demo br_name),
                Sys_if_indextoname 7]"
    by (simp add: lookups_before_def GetInterfaces_calls_def GetInterfaces_ifindices_demo
          kernel_demo_simps MAX_PORTS_def)
  show ?thesis
    by (simp add: GetInterfacesInBridge_ioctl_ok [OF sock r] names calls unique_fd_close_def
          kernel_demo_simps)
qed

lemma kernel_demo_other_requests:
  "ioctl_result kernel_demo h fd (SIOCBRADDBR nm) = \<lparr> ret = 0, errno = 0, copied = [] \<rparr>"
  "ioctl_result kernel_demo h fd (SIOCBRDELBR nm) = \<lparr> ret = 0, errno = 0, copied = [] \<rparr>"
  "ioctl_result kernel_demo h fd (SIOCBRADDIF nm i) = \<lparr> ret = 0, errno = 0, copied = [] \<rparr>"
  "ioctl_result kernel_demo h fd (SIOCBRDELIF nm i) = \<lparr> ret = 0, errno = 0, copied = [] \<rparr>"
  by (simp_all add: kernel_demo_def)

lemma kernel_interrupted_once_simps:
  "socket_result kernel_interrupted_once h = 3"
  "ioctl_result kernel_interrupted_once h fd req =
     (if list_ex is_ioctl h then \<lparr> ret = 0, errno = 0, copied = [] \<rparr>
      else \<lparr> ret = - 1, errno = EINTR, copied = [] \<rparr>)"
  "nametoindex_result kernel_interrupted_once h nm = (if nm = ''wlan0'' then 7 else 0)"
  "indextoname_result kernel_interrupted_once h = interface_table"
  by (simp_all add: kernel_interrupted_once_def)

lemma kernel_no_socket_simps:
  "socket_result kernel_no_socket h = - 1"
  "ioctl_result kernel_no_socket h fd req = \<lparr> ret = - 1, errno = EBADF, copied = [] \<rparr>"
  "nametoindex_result kernel_no_socket h nm = (if nm = ''wlan0'' then 7 else 0)"
  by (simp_all add: kernel_no_socket_def)

lemma kernel_no_bridge_simps:
  "socket_result kernel_no_bridge h = 3"
  "ioctl_result kernel_no_bridge h fd req = \<lparr> ret = - 1, errno = ENODEV, copied = [] \<rparr>"
  "nametoindex_result kernel_no_bridge h nm = 0"
  "indextoname_result kernel_no_bridge h i = None"
  by (simp_all add: kernel_no_bridge_def)

lemma interrupted_once_ends_at_1:
  "\<not> list_ex is_ioctl t \<Longrightarrow> retry_ends_at kernel_interrupted_once sock req t 1"
  by (simp add: retry_ends_at_def attempt_def interrupted_def kernel_interrupted_once_simps
        EINTR_def list_ex_iff)

lemma no_socket_ends_at_0: "retry_ends_at kernel_no_socket sock req t 0"
  by (simp add: retry_ends_at_def attempt_def interrupted_def kernel_no_socket_simps
        EINTR_def EBADF_def)

lemma demo_ends_at_0:
  "retry_ends_at kernel_demo sock (SIOCBRADDIF nm i) t 0"
  "retry_ends_at kernel_demo sock (SIOCBRDELIF nm i) t 0"
  "retry_ends_at kernel_demo sock (SIOCBRADDBR nm) t 0"
  "retry_ends_at kernel_demo sock (SIOCBRDELBR nm) t 0"
  by (simp_all add: retry_ends_at_def attempt_def interrupted_def kernel_demo_other_requests)

lemma c_str_examples:
  "c_str ''br0'' = ''br0''" "c_str ''wlan0'' = ''wlan0''" "c_str ''eth9'' = ''eth9''"
  "c_str ''wifi_bridge_number_0'' = ''wifi_bridge_number_0''"
  by (simp_all add: c_str_def)

lemma demo_replies:
  "ret (GetBridges_reply kernel_demo stack_demo []) = 1"
  "ret (GetInterfaces_reply kernel_demo stack_demo br_name []) = 1024"
  by (simp_all add: GetBridges_reply_def GetBridges_request_def GetInterfaces_reply_def
        GetInterfaces_request_def kernel_demo_simps)

lemma one_slot_demo:
  "resolved_names kernel_demo (GetBridges_calls kernel_demo stack_demo [])
     (GetBridges_ifindices kernel_demo stack_demo []) (Suc 0) = [''br0'']"
  by (subst resolved_names_stable [where tbl = interface_table])
     (simp_all add: kernel_demo_simps GetBridges_ifindices_demo interface_table_def
        List.map_filter_simps del: upt_rec_numeral)

lemma port_slots_demo:
  "resolved_names kernel_demo (GetInterfaces_calls kernel_demo stack_demo br_name [])
     (GetInterfaces_ifindices kernel_demo stack_demo br_name []) MAX_PORTS = [''wlan0'']"
  by (subst resolved_names_stable [where tbl = interface_table])
     (simp_all add: kernel_demo_simps GetInterfaces_ifindices_demo interface_table_def
        List.map_filter_simps MAX_PORTS_def)

lemma no_bridge_replies:
  "ret (GetBridges_reply kernel_no_bridge u t) = - 1"
  "ret (GetInterfaces_reply kernel_no_bridge u br_name t) = - 1"
  by (simp_all add: GetBridges_reply_def GetInterfaces_reply_def kernel_no_bridge_simps)

lemma GetInterfacesInBridge_appends:
  "\<exists>ok new. fst (GetInterfacesInBridge K u br_name interfaces t) = Inr (ok, interfaces @ new)"
proof (cases "socket_result K t < 0")
  case True
  then have "fst (GetInterfacesInBridge K u br_name interfaces t) = Inr (False, interfaces @ [])"
    by (simp add: GetInterfacesInBridge_no_socket)
  then show ?thesis by blast
next
  case False
  then have sock: "0 \<le> socket_result K t" by simp
  show ?thesis
  proof (cases "ret (GetInterfaces_reply K u br_name t) < 0")
    case True
    then have "fst (GetInterfacesInBridge K u br_name interfaces t) =
                 Inr (False, interfaces @ [])"
      by (simp add: GetInterfacesInBridge_ioctl_failed [OF sock])
    then show ?thesis by blast
  next
    case False
    then have "0 \<le> ret (GetInterfaces_reply K u br_name t)" by simp
    from GetInterfacesInBridge_ioctl_ok [OF sock this, of interfaces] show ?thesis
      by (metis fst_conv)
  qed
qed

lemma bridge_name_example: "bridge_name 1024 = ''br1024''" "bridge_name 7 = ''br0007''"
  by (simp_all add: bridge_name_def)

lemma kernel_crowded_simps:
  "socket_result kernel_crowded h = 3"
  "ioctl_result kernel_crowded h fd req = \<lparr> ret = 1024, errno = 0, copied = crowded_indices \<rparr>"
  "indextoname_result kernel_crowded h = (\<lambda>i. Some (bridge_name i))"
  by (simp_all add: kernel_crowded_def)

lemma length_crowded_indices: "length crowded_indices = 1024"
  by (simp add: crowded_indices_def del: upt_rec_numeral)

lemma crowded_indices_nonzero: "filter (\<lambda>x. x \<noteq> 0) crowded_indices = crowded_indices"
proof -
  have "of_nat i \<noteq> (0 :: ifindex)" if "1 \<le> i" and "i < 1025" for i :: nat
  proof
    assume "of_nat i = (0 :: ifindex)"
    then have "2 ^ LENGTH(32) dvd i" by (simp only: word_of_nat_eq_0_iff)
    with that(1) have "(2 :: nat) ^ LENGTH(32) \<le> i" by (auto dest: dvd_imp_le)
    with that(2) show False by simp
  qed
  then show ?thesis by (auto simp: crowded_indices_def filter_id_conv simp del: upt_rec_numeral)
qed

lemma GetBridges_ifindices_crowded:
  "GetBridges_ifindices kernel_crowded u t = crowded_indices"
  by (simp add: GetBridges_ifindices_def GetBridges_reply_def kernel_crowded_simps
        copy_to_user_def length_ifindices_init length_crowded_indices MAX_PORTS_def)

lemma crowded_reply: "ret (GetBridges_reply kernel_crowded u t) = 1024"
  by (simp add: GetBridges_reply_def kernel_crowded_simps)

lemma crowded_names:
  "resolved_names kernel_crowded (GetBridges_calls kernel_crowded u t)
     (GetBridges_ifindices kernel_crowded u t) 1024 = map bridge_name crowded_indices"
  by (subst resolved_names_stable [where tbl = "\<lambda>i. Some (bridge_name i)"])
     (simp_all add: kernel_crowded_simps GetBridges_ifindices_crowded crowded_indices_nonzero
        length_crowded_indices List.map_filter_def o_def)

lemma crowded_lookups:
  "lookups_before (GetBridges_calls kernel_crowded u t)
     (GetBridges_ifindices kernel_crowded u t) 1024 =
   t @ [Sys_socket, Sys_ioctl 3 (GetBridges_request u)] @
   map Sys_if_indextoname crowded_indices"
  by (simp add: lookups_before_def GetBridges_calls_def GetBridges_ifindices_crowded
        crowded_indices_nonzero length_crowded_indices kernel_crowded_simps)

subsection \<open>The array past the entries the kernel wrote\<close>

text \<open>
  When the stack under the slots from 256 on held zeros and the kernel copied no more
  entries than it reports, the slots from \<^verbatim>\<open>num\<close> on are zero, and the names that
  \<^verbatim>\<open>GetBridges\<close> returns are those of all \<^verbatim>\<open>MAX_PORTS\<close> slots.
\<close>

lemma map_filter_all_None:
  "(\<And>x. x \<in> set xs \<Longrightarrow> f x = None) \<Longrightarrow> List.map_filter f xs = []"
  by (induction xs) (simp_all add: List.map_filter_simps)

lemma resolved_names_extend:
  assumes "n \<le> m" and "\<And>i. n \<le> i \<Longrightarrow> i < m \<Longrightarrow> buf ! i = 0"
  shows "resolved_names K t buf m = resolved_names K t buf n"
proof -
  have split: "[0..<m] = [0..<n] @ [n..<m]"
    using assms(1) by (metis le_add_diff_inverse upt_add_eq_append zero_le)
  have "List.map_filter (resolve_at K t buf) [n..<m] = []"
    by (rule map_filter_all_None) (simp add: resolve_at_def assms(2))
  then show ?thesis
    by (simp add: resolved_names_def split List.map_filter_def)
qed

lemma GetBridges_ifindices_beyond:
  assumes "\<And>i. 256 \<le> i \<Longrightarrow> u i = 0"
    and "length (copied (GetBridges_reply K u t)) \<le> i" and "i < MAX_PORTS"
  shows "GetBridges_ifindices K u t ! i = 0"
proof -
  have zero: "ifindices_init u ! i = 0"
    using assms(1,3) by (simp add: ifindices_init_eq nth_append MAX_PORTS_def del: upt_rec_numeral)
  show ?thesis
    using assms(2,3) zero
    by (simp add: GetBridges_ifindices_def copy_to_user_def length_ifindices_init nth_append)
qed

lemma GetBridges_all_slots_when_clean:
  assumes "0 \<le> socket_result K t"
    and "\<And>i. 256 \<le> i \<Longrightarrow> u i = 0"
    and "int (length (copied (GetBridges_reply K u t))) \<le> ret (GetBridges_reply K u t)"
    and "ret (GetBridges_reply K u t) \<le> int MAX_PORTS"
  shows "fst (GetBridges K u bridges t) =
           Inr (True, bridges @ resolved_names K (GetBridges_calls K u t)
                                  (GetBridges_ifindices K u t) MAX_PORTS)"
proof -
  have "resolved_names K (GetBridges_calls K u t) (GetBridges_ifindices K u t) MAX_PORTS =
        resolved_names K (GetBridges_calls K u t) (GetBridges_ifindices K u t)
          (nat (ret (GetBridges_reply K u t)))"
  proof (rule resolved_names_extend)
    show "nat (ret (GetBridges_reply K u t)) \<le> MAX_PORTS" using assms(4) by simp
  next
    fix i assume "nat (ret (GetBridges_reply K u t)) \<le> i" and lt: "i < MAX_PORTS"
    with assms(3) have "length (copied (GetBridges_reply K u t)) \<le> i" by linarith
    from GetBridges_ifindices_beyond [OF assms(2) this lt]
    show "GetBridges_ifindices K u t ! i = 0" .
  qed
  then show ?thesis by (simp add: GetBridges_in_range [OF assms(1,4)])
qed

section \<open>The claims of the specification\<close>

text \<open>
  Claim C1: in both enumerations all 1024 slots of \<^verbatim>\<open>ifindices\<close> are zero before the
  kernel is called, so that a slot the kernel does not write holds zero.
  \<^verbatim>\<open>memset(ifindices, 0, MAX_PORTS)\<close> clears 1024 bytes, which are the first 256 slots.
  With a stale 7 on the stack at slot 256, the array that both requests hand to the kernel
  still holds 7 there, and so does the array of \<^verbatim>\<open>GetBridges\<close> after a kernel that
  wrote slot 0 only. (Whatever the stack holds, the array handed to the kernel is 256 zeros
  followed by the stack's contents for the slots 256 to 1023: \<open>ifindices_init_eq\<close>.)
\<close>

theorem ifindices_not_cleared_past_slot_255:
  "memset_zero (map stack_demo [0..<MAX_PORTS]) MAX_PORTS ! 256 = 7 \<and>
   snd (GetBridges kernel_demo stack_demo [] []) ! 1 =
     Sys_ioctl 3 (SIOCGIFBR BRCTL_GET_BRIDGES
                    (memset_zero (map stack_demo [0..<MAX_PORTS]) MAX_PORTS) MAX_PORTS) \<and>
   snd (GetInterfacesInBridge kernel_demo stack_demo ''br0'' [] []) ! 1 =
     Sys_ioctl 3 (SIOCDEVPRIVATE ''br0'' BRCTL_GET_PORT_LIST
                    (memset_zero (map stack_demo [0..<MAX_PORTS]) MAX_PORTS) MAX_PORTS) \<and>
   GetBridges_ifindices kernel_demo stack_demo [] ! 256 = 7"
proof -
  have a: "memset_zero (map stack_demo [0..<MAX_PORTS]) MAX_PORTS ! 256 = 7"
    by (simp add: memset_zero_def MAX_PORTS_def sizeof_int_def nth_append stack_demo_def
          del: upt_rec_numeral)
  have b: "GetBridges_ifindices kernel_demo stack_demo [] ! 256 = 7"
    by (simp add: GetBridges_ifindices_demo nth_Cons' nth_append stack_demo_def
          del: upt_rec_numeral)
  show ?thesis
    by (simp add: a b GetBridges_demo GetInterfacesInBridge_demo GetBridges_request_def
          GetInterfaces_request_def ifindices_init_def strlcpy_IFNAMSIZ c_str_examples)
qed

text \<open>
  Claim C2: every operation detects that the socket could not be obtained, reports
  failure and returns without an \<^verbatim>\<open>ioctl\<close> on the invalid descriptor. The two
  enumerations do so (\<open>GetBridges_no_socket\<close>, \<open>GetInterfacesInBridge_no_socket\<close>). The
  four operations that change the bridge table never look at the descriptor: run on a
  kernel whose \<^verbatim>\<open>socket\<close> returns \<^verbatim>\<open>-1\<close>, each of them issues its request on
  descriptor \<^verbatim>\<open>-1\<close> and returns \<^verbatim>\<open>false\<close> only because that request fails.
\<close>

theorem mutating_operations_use_an_invalid_socket:
  "createBridge kernel_no_socket ''br0'' [] =
     Some (False, [Sys_socket, Sys_ioctl (- 1) (SIOCBRADDBR ''br0'')]) \<and>
   deleteBridge kernel_no_socket ''br0'' [] =
     Some (False, [Sys_socket, Sys_ioctl (- 1) (SIOCBRDELBR ''br0'')]) \<and>
   addIfaceToBridge kernel_no_socket ''br0'' ''wlan0'' [] =
     Some (False, [Sys_if_nametoindex ''wlan0'', Sys_socket,
                   Sys_ioctl (- 1) (SIOCBRADDIF ''br0'' 7)]) \<and>
   removeIfaceFromBridge kernel_no_socket ''br0'' ''wlan0'' [] =
     Some (False, [Sys_if_nametoindex ''wlan0'', Sys_socket,
                   Sys_ioctl (- 1) (SIOCBRDELIF ''br0'' 7)])"
proof -
  have nz: "nametoindex_result kernel_no_socket [] (c_str ''wlan0'') \<noteq> 0"
    by (simp add: kernel_no_socket_simps c_str_examples)
  have "createBridge kernel_no_socket ''br0'' [] =
          Some (False, [Sys_socket, Sys_ioctl (- 1) (SIOCBRADDBR ''br0'')])"
    using createBridge_result [OF no_socket_ends_at_0, of "''br0''" "[]"]
    by (simp add: attempt_def kernel_no_socket_simps c_str_examples unique_fd_close_def)
  moreover have "deleteBridge kernel_no_socket ''br0'' [] =
          Some (False, [Sys_socket, Sys_ioctl (- 1) (SIOCBRDELBR ''br0'')])"
    using deleteBridge_result [OF no_socket_ends_at_0, of "''br0''" "[]"]
    by (simp add: attempt_def kernel_no_socket_simps c_str_examples unique_fd_close_def)
  moreover have "addIfaceToBridge kernel_no_socket ''br0'' ''wlan0'' [] =
     Some (False, [Sys_if_nametoindex ''wlan0'', Sys_socket,
                   Sys_ioctl (- 1) (SIOCBRADDIF ''br0'' 7)])"
    using addIfaceToBridge_result [OF nz no_socket_ends_at_0, of "''br0''"]
    by (simp add: attempt_def kernel_no_socket_simps c_str_examples unique_fd_close_def)
  moreover have "removeIfaceFromBridge kernel_no_socket ''br0'' ''wlan0'' [] =
     Some (False, [Sys_if_nametoindex ''wlan0'', Sys_socket,
                   Sys_ioctl (- 1) (SIOCBRDELIF ''br0'' 7)])"
    using removeIfaceFromBridge_result [OF nz no_socket_ends_at_0, of "''br0''"]
    by (simp add: attempt_def kernel_no_socket_simps c_str_examples unique_fd_close_def)
  ultimately show ?thesis by (simp only: simp_thms)
qed

text \<open>
  Claim C3: when \<^verbatim>\<open>if_nametoindex\<close> yields zero for the interface name, both
  \<^verbatim>\<open>addIfaceToBridge\<close> and \<^verbatim>\<open>removeIfaceFromBridge\<close> return \<^verbatim>\<open>false\<close> at once:
  the name lookup is the only system call they make, so neither a socket is opened nor a
  request issued.
\<close>

theorem absent_interface_fails_before_any_request:
  assumes "nametoindex_result K t (c_str if_name) = 0"
  shows "addIfaceToBridge K br_name if_name t =
           Some (False, t @ [Sys_if_nametoindex (c_str if_name)]) \<and>
         removeIfaceFromBridge K br_name if_name t =
           Some (False, t @ [Sys_if_nametoindex (c_str if_name)])"
  using assms by (simp add: addIfaceToBridge_absent removeIfaceFromBridge_absent)

theorem absent_interface_fails_before_any_request_witness:
  "nametoindex_result kernel_demo [] (c_str ''eth9'') = 0 \<and>
   addIfaceToBridge kernel_demo ''br0'' ''eth9'' [] = Some (False, [Sys_if_nametoindex ''eth9'']) \<and>
   removeIfaceFromBridge kernel_demo ''br0'' ''eth9'' [] =
     Some (False, [Sys_if_nametoindex ''eth9''])"
proof -
  have h: "nametoindex_result kernel_demo [] (c_str ''eth9'') = 0"
    by (simp add: kernel_demo_simps c_str_examples)
  show ?thesis
    using h absent_interface_fails_before_any_request [OF h, of "''br0''"]
    by (simp add: c_str_examples)
qed


text \<open>
  Claim C5: \<^verbatim>\<open>GetBridges\<close> produces at most 1024 names, looks at the first 1024
  slots only when there are more bridges, and does not report that as a failure. The
  request gives the kernel the capacity \<^verbatim>\<open>MAX_PORTS\<close>. For every reply within it, the
  operation returns \<^verbatim>\<open>true\<close> with exactly the names of the first \<^verbatim>\<open>num\<close> slots, which
  are at most \<^verbatim>\<open>MAX_PORTS\<close>, after looking up those slots and no other. Whatever the
  kernel replies, a vector that \<^verbatim>\<open>GetBridges\<close> returns has grown by at most
  \<^verbatim>\<open>MAX_PORTS\<close> names and comes with \<^verbatim>\<open>true\<close> exactly when the socket was obtained.
  The only other outcome is the read past the end of the array, for which the source has
  no defined behaviour, and it occurs exactly when the kernel reports more entries than
  the capacity it was given.
\<close>

theorem GetBridges_returns_at_most_MAX_PORTS_names:
  "(0 \<le> socket_result K t \<and> ret (GetBridges_reply K u t) \<le> int MAX_PORTS \<longrightarrow>
      GetBridges K u bridges t =
        (Inr (True, bridges @ resolved_names K (GetBridges_calls K u t)
                                (GetBridges_ifindices K u t)
                                (nat (ret (GetBridges_reply K u t)))),
         unique_fd_close (socket_result K t)
           (lookups_before (GetBridges_calls K u t) (GetBridges_ifindices K u t)
              (nat (ret (GetBridges_reply K u t))))) \<and>
      length (resolved_names K (GetBridges_calls K u t) (GetBridges_ifindices K u t)
                (nat (ret (GetBridges_reply K u t)))) \<le> MAX_PORTS) \<and>
   (\<forall>ok out. fst (GetBridges K u bridges t) = Inr (ok, out) \<longrightarrow>
      length out \<le> length bridges + MAX_PORTS \<and> (ok \<longleftrightarrow> 0 \<le> socket_result K t)) \<and>
   (fst (GetBridges K u bridges t) = Inl Out_of_bounds_read \<longleftrightarrow>
      0 \<le> socket_result K t \<and> int MAX_PORTS < ret (GetBridges_reply K u t)) \<and>
   GetBridges_calls K u t =
     t @ [Sys_socket,
          Sys_ioctl (socket_result K t)
            (SIOCGIFBR BRCTL_GET_BRIDGES (ifindices_init u) MAX_PORTS)]"
proof -
  let ?n = "nat (ret (GetBridges_reply K u t))"
  let ?names = "resolved_names K (GetBridges_calls K u t) (GetBridges_ifindices K u t) ?n"
  have len: "length ?names \<le> MAX_PORTS" if "ret (GetBridges_reply K u t) \<le> int MAX_PORTS"
  proof -
    have "length ?names \<le> ?n" by (rule length_resolved_names)
    also have "\<dots> \<le> MAX_PORTS" using that by simp
    finally show ?thesis .
  qed
  have A: "GetBridges K u bridges t =
        (Inr (True, bridges @ ?names),
         unique_fd_close (socket_result K t)
           (lookups_before (GetBridges_calls K u t) (GetBridges_ifindices K u t) ?n)) \<and>
      length ?names \<le> MAX_PORTS"
    if "0 \<le> socket_result K t" and "ret (GetBridges_reply K u t) \<le> int MAX_PORTS"
    using GetBridges_in_range [OF that] len [OF that(2)] by simp
  consider (nosock) "socket_result K t < 0"
    | (ok) "0 \<le> socket_result K t" "ret (GetBridges_reply K u t) \<le> int MAX_PORTS"
    | (over) "0 \<le> socket_result K t" "int MAX_PORTS < ret (GetBridges_reply K u t)"
    by linarith
  then have BC: "(\<forall>ok out. fst (GetBridges K u bridges t) = Inr (ok, out) \<longrightarrow>
      length out \<le> length bridges + MAX_PORTS \<and> (ok \<longleftrightarrow> 0 \<le> socket_result K t)) \<and>
   (fst (GetBridges K u bridges t) = Inl Out_of_bounds_read \<longleftrightarrow>
      0 \<le> socket_result K t \<and> int MAX_PORTS < ret (GetBridges_reply K u t))"
  proof cases
    case nosock
    then show ?thesis by (simp add: GetBridges_no_socket)
  next
    case ok
    from A [OF ok] ok show ?thesis by simp
  next
    case over
    from GetBridges_past_capacity [OF over] over show ?thesis by simp
  qed
  have D: "GetBridges_calls K u t =
     t @ [Sys_socket,
          Sys_ioctl (socket_result K t)
            (SIOCGIFBR BRCTL_GET_BRIDGES (ifindices_init u) MAX_PORTS)]"
    by (simp add: GetBridges_calls_def GetBridges_request_def)
  from A BC D show ?thesis by blast
qed

theorem GetBridges_returns_at_most_MAX_PORTS_names_witness:
  "0 \<le> socket_result kernel_crowded [] \<and>
   ret (GetBridges_reply kernel_crowded stack_demo []) = int MAX_PORTS \<and>
   GetBridges kernel_crowded stack_demo [''lo''] [] =
     (Inr (True, [''lo''] @ map bridge_name crowded_indices),
      [Sys_socket,
       Sys_ioctl 3 (SIOCGIFBR BRCTL_GET_BRIDGES (ifindices_init stack_demo) MAX_PORTS)] @
      map Sys_if_indextoname crowded_indices @ [Sys_close 3]) \<and>
   length (map bridge_name crowded_indices) = MAX_PORTS \<and>
   0 \<le> socket_result kernel_demo [] \<and>
   ret (GetBridges_reply kernel_demo stack_demo []) = 1 \<and>
   GetBridges kernel_demo stack_demo [''lo''] [] =
     (Inr (True, [''lo'', ''br0'']),
      [Sys_socket,
       Sys_ioctl 3 (SIOCGIFBR BRCTL_GET_BRIDGES (ifindices_init stack_demo) MAX_PORTS),
       Sys_if_indextoname 3, Sys_close 3])"
proof -
  have c: "0 \<le> socket_result kernel_crowded []"
    "ret (GetBridges_reply kernel_crowded stack_demo []) = int MAX_PORTS"
    by (simp_all add: kernel_crowded_simps crowded_reply MAX_PORTS_def)
  have d: "0 \<le> socket_result kernel_demo []"
    "ret (GetBridges_reply kernel_demo stack_demo []) = 1"
    by (simp_all add: kernel_demo_simps demo_replies)
  have calls: "lookups_before (GetBridges_calls kernel_demo stack_demo [])
                 (GetBridges_ifindices kernel_demo stack_demo []) (Suc 0) =
               GetBridges_calls kernel_demo stack_demo [] @ [Sys_if_indextoname 3]"
    by (simp add: lookups_before_def GetBridges_ifindices_demo del: upt_rec_numeral)
  from GetBridges_returns_at_most_MAX_PORTS_names [of kernel_crowded "[]" stack_demo "[''lo'']"]
    GetBridges_returns_at_most_MAX_PORTS_names [of kernel_demo "[]" stack_demo "[''lo'']"]
    c d
  show ?thesis
    by (simp add: MAX_PORTS_def crowded_names crowded_lookups length_crowded_indices
          one_slot_demo calls kernel_crowded_simps kernel_demo_simps unique_fd_close_def
          GetBridges_request_def)
qed

text \<open>
  Claim C6: once the socket has been obtained, \<^verbatim>\<open>GetInterfacesInBridge\<close> returns
  \<^verbatim>\<open>false\<close> exactly when the \<^verbatim>\<open>SIOCDEVPRIVATE\<close> call returns a negative value, and
  then the caller's vector is left as it was and no name is looked up.
\<close>

theorem GetInterfacesInBridge_fails_iff_query_fails:
  assumes "0 \<le> socket_result K t"
  shows "((\<exists>out. fst (GetInterfacesInBridge K u br_name interfaces t) = Inr (False, out))
            \<longleftrightarrow> ret (GetInterfaces_reply K u br_name t) < 0) \<and>
         (ret (GetInterfaces_reply K u br_name t) < 0 \<longrightarrow>
            GetInterfacesInBridge K u br_name interfaces t =
              (Inr (False, interfaces),
               unique_fd_close (socket_result K t) (GetInterfaces_calls K u br_name t)))"
proof (cases "ret (GetInterfaces_reply K u br_name t) < 0")
  case True
  then show ?thesis by (simp add: GetInterfacesInBridge_ioctl_failed [OF assms])
next
  case False
  then have "0 \<le> ret (GetInterfaces_reply K u br_name t)" by simp
  from GetInterfacesInBridge_ioctl_ok [OF assms this] False show ?thesis by simp
qed

theorem GetInterfacesInBridge_fails_iff_query_fails_witness:
  "0 \<le> socket_result kernel_no_bridge [] \<and>
   ret (GetInterfaces_reply kernel_no_bridge stack_demo ''br0'' []) < 0 \<and>
   GetInterfacesInBridge kernel_no_bridge stack_demo ''br0'' [''lo''] [] =
     (Inr (False, [''lo'']),
      [Sys_socket, Sys_ioctl 3 (GetInterfaces_request stack_demo ''br0''), Sys_close 3]) \<and>
   0 \<le> socket_result kernel_demo [] \<and>
   0 \<le> ret (GetInterfaces_reply kernel_demo stack_demo ''br0'' []) \<and>
   fst (GetInterfacesInBridge kernel_demo stack_demo ''br0'' [''lo''] []) \<noteq>
     Inr (False, [''lo'', ''wlan0''])"
proof -
  have h: "0 \<le> socket_result kernel_no_bridge []" by (simp add: kernel_no_bridge_simps)
  have k: "0 \<le> socket_result kernel_demo []" by (simp add: kernel_demo_simps)
  from GetInterfacesInBridge_fails_iff_query_fails [OF h, of stack_demo "''br0''" "[''lo'']"]
    GetInterfacesInBridge_fails_iff_query_fails [OF k, of stack_demo "''br0''" "[''lo'']"]
  show ?thesis
    by (simp add: no_bridge_replies demo_replies kernel_no_bridge_simps kernel_demo_simps
          GetInterfaces_calls_def unique_fd_close_def)
qed

text \<open>
  Claim C7: in every operation that fills a 16-byte name field, a bridge name of more
  than 15 characters is cut to its first 15 and not rejected, and the request carries the
  cut name. \<^verbatim>\<open>createBridge\<close> and \<^verbatim>\<open>deleteBridge\<close> fill no name field: they hand
  \<^verbatim>\<open>br_name.c_str()\<close> to \<^verbatim>\<open>ioctl\<close>, so that for a name of 20 characters the request
  carries all 20.
\<close>

theorem createBridge_sends_the_whole_name:
  "length (c_str ''wifi_bridge_number_0'') = 20 \<and>
   createBridge kernel_demo ''wifi_bridge_number_0'' [] =
     Some (True, [Sys_socket, Sys_ioctl 3 (SIOCBRADDBR ''wifi_bridge_number_0''),
                  Sys_close 3]) \<and>
   deleteBridge kernel_demo ''wifi_bridge_number_0'' [] =
     Some (True, [Sys_socket, Sys_ioctl 3 (SIOCBRDELBR ''wifi_bridge_number_0''),
                  Sys_close 3])"
  using createBridge_result [OF demo_ends_at_0(3), of "''wifi_bridge_number_0''" "[]"]
    deleteBridge_result [OF demo_ends_at_0(4), of "''wifi_bridge_number_0''" "[]"]
  by (simp add: c_str_examples attempt_def kernel_demo_simps kernel_demo_other_requests
        unique_fd_close_def)

text \<open>
  Claim C7 as the source has it: \<^verbatim>\<open>addIfaceToBridge\<close>, \<^verbatim>\<open>removeIfaceFromBridge\<close> and
  \<^verbatim>\<open>GetInterfacesInBridge\<close> copy the bridge name into the 16-byte \<^verbatim>\<open>ifr_name\<close> with
  \<^verbatim>\<open>strlcpy\<close>: a name of more than 15 characters is cut to its first 15 and not
  rejected, the request that reaches the kernel carries the cut name, and the operation
  returns what the kernel answers to it. \<^verbatim>\<open>createBridge\<close> and \<^verbatim>\<open>deleteBridge\<close> hand
  the kernel the whole name, neither cut nor rejected.
\<close>

theorem bridge_name_is_cut_only_for_ifr_name:
  assumes "15 < length (c_str br_name)"
  shows "length (strlcpy (c_str br_name) IFNAMSIZ) = 15 \<and>
         strlcpy (c_str br_name) IFNAMSIZ = take 15 (c_str br_name) \<and>
         take 15 (c_str br_name) \<noteq> c_str br_name \<and>
         (nametoindex_result K t (c_str if_name) \<noteq> 0 \<and>
          retry_ends_at K (socket_result K (t @ [Sys_if_nametoindex (c_str if_name)]))
            (SIOCBRADDIF (take 15 (c_str br_name)) (nametoindex_result K t (c_str if_name)))
            (t @ [Sys_if_nametoindex (c_str if_name), Sys_socket]) n \<longrightarrow>
          addIfaceToBridge K br_name if_name t =
            Some (ret (attempt K (socket_result K (t @ [Sys_if_nametoindex (c_str if_name)]))
                         (SIOCBRADDIF (take 15 (c_str br_name))
                            (nametoindex_result K t (c_str if_name)))
                         (t @ [Sys_if_nametoindex (c_str if_name), Sys_socket]) n) = 0,
                  unique_fd_close (socket_result K (t @ [Sys_if_nametoindex (c_str if_name)]))
                    (t @ [Sys_if_nametoindex (c_str if_name), Sys_socket] @
                     replicate (Suc n)
                       (Sys_ioctl (socket_result K (t @ [Sys_if_nametoindex (c_str if_name)]))
                          (SIOCBRADDIF (take 15 (c_str br_name))
                             (nametoindex_result K t (c_str if_name))))))) \<and>
         (nametoindex_result K t (c_str if_name) \<noteq> 0 \<and>
          retry_ends_at K (socket_result K (t @ [Sys_if_nametoindex (c_str if_name)]))
            (SIOCBRDELIF (take 15 (c_str br_name)) (nametoindex_result K t (c_str if_name)))
            (t @ [Sys_if_nametoindex (c_str if_name), Sys_socket]) n \<longrightarrow>
          removeIfaceFromBridge K br_name if_name t =
            Some (ret (attempt K (socket_result K (t @ [Sys_if_nametoindex (c_str if_name)]))
                         (SIOCBRDELIF (take 15 (c_str br_name))
                            (nametoindex_result K t (c_str if_name)))
                         (t @ [Sys_if_nametoindex (c_str if_name), Sys_socket]) n) = 0,
                  unique_fd_close (socket_result K (t @ [Sys_if_nametoindex (c_str if_name)]))
                    (t @ [Sys_if_nametoindex (c_str if_name), Sys_socket] @
                     replicate (Suc n)
                       (Sys_ioctl (socket_result K (t @ [Sys_if_nametoindex (c_str if_name)]))
                          (SIOCBRDELIF (take 15 (c_str br_name))
                             (nametoindex_result K t (c_str if_name))))))) \<and>
         GetInterfaces_calls K u br_name t =
           t @ [Sys_socket,
                Sys_ioctl (socket_result K t)
                  (SIOCDEVPRIVATE (take 15 (c_str br_name)) BRCTL_GET_PORT_LIST
                     (ifindices_init u) MAX_PORTS)] \<and>
         (0 \<le> socket_result K t \<and> ret (GetInterfaces_reply K u br_name t) < 0 \<longrightarrow>
          GetInterfacesInBridge K u br_name interfaces t =
            (Inr (False, interfaces),
             unique_fd_close (socket_result K t) (GetInterfaces_calls K u br_name t))) \<and>
         (0 \<le> socket_result K t \<and> 0 \<le> ret (GetInterfaces_reply K u br_name t) \<longrightarrow>
          GetInterfacesInBridge K u br_name interfaces t =
            (Inr (True, interfaces @ resolved_names K (GetInterfaces_calls K u br_name t)
                                       (GetInterfaces_ifindices K u br_name t) MAX_PORTS),
             unique_fd_close (socket_result K t)
               (lookups_before (GetInterfaces_calls K u br_name t)
                  (GetInterfaces_ifindices K u br_name t) MAX_PORTS))) \<and>
         (retry_ends_at K (socket_result K t) (SIOCBRADDBR (c_str br_name))
            (t @ [Sys_socket]) n \<longrightarrow>
          createBridge K br_name t =
            Some (ret (attempt K (socket_result K t) (SIOCBRADDBR (c_str br_name))
                         (t @ [Sys_socket]) n) = 0,
                  unique_fd_close (socket_result K t)
                    (t @ [Sys_socket] @
                     replicate (Suc n)
                       (Sys_ioctl (socket_result K t) (SIOCBRADDBR (c_str br_name)))))) \<and>
         (retry_ends_at K (socket_result K t) (SIOCBRDELBR (c_str br_name))
            (t @ [Sys_socket]) n \<longrightarrow>
          deleteBridge K br_name t =
            Some (ret (attempt K (socket_result K t) (SIOCBRDELBR (c_str br_name))
                         (t @ [Sys_socket]) n) = 0,
                  unique_fd_close (socket_result K t)
                    (t @ [Sys_socket] @
                     replicate (Suc n)
                       (Sys_ioctl (socket_result K t) (SIOCBRDELBR (c_str br_name))))))"
proof -
  have len: "length (strlcpy (c_str br_name) IFNAMSIZ) = 15"
    using assms by (simp add: strlcpy_IFNAMSIZ)
  have cut: "strlcpy (c_str br_name) IFNAMSIZ = take 15 (c_str br_name)"
    by (rule strlcpy_IFNAMSIZ)
  have ne: "take 15 (c_str br_name) \<noteq> c_str br_name"
  proof
    assume "take 15 (c_str br_name) = c_str br_name"
    then have "length (take 15 (c_str br_name)) = length (c_str br_name)" by simp
    with assms show False by simp
  qed
  have calls: "GetInterfaces_calls K u br_name t =
           t @ [Sys_socket,
                Sys_ioctl (socket_result K t)
                  (SIOCDEVPRIVATE (take 15 (c_str br_name)) BRCTL_GET_PORT_LIST
                     (ifindices_init u) MAX_PORTS)]"
    by (simp add: GetInterfaces_calls_def GetInterfaces_request_def strlcpy_IFNAMSIZ)
  note add = addIfaceToBridge_result [of K t if_name br_name n]
  note rem = removeIfaceFromBridge_result [of K t if_name br_name n]
  note cre = createBridge_result [of K t br_name n]
  note del = deleteBridge_result [of K t br_name n]
  note bad = GetInterfacesInBridge_ioctl_failed [of K t u br_name interfaces]
  note good = GetInterfacesInBridge_ioctl_ok [of K t u br_name interfaces]
  from len cut ne calls add rem cre del bad good show ?thesis by blast
qed

theorem bridge_name_is_cut_only_for_ifr_name_witness:
  "15 < length (c_str ''wifi_bridge_number_0'') \<and>
   strlcpy (c_str ''wifi_bridge_number_0'') IFNAMSIZ = ''wifi_bridge_num'' \<and>
   addIfaceToBridge kernel_demo ''wifi_bridge_number_0'' ''wlan0'' [] =
     Some (True, [Sys_if_nametoindex ''wlan0'', Sys_socket,
                  Sys_ioctl 3 (SIOCBRADDIF ''wifi_bridge_num'' 7), Sys_close 3]) \<and>
   removeIfaceFromBridge kernel_demo ''wifi_bridge_number_0'' ''wlan0'' [] =
     Some (True, [Sys_if_nametoindex ''wlan0'', Sys_socket,
                  Sys_ioctl 3 (SIOCBRDELIF ''wifi_bridge_num'' 7), Sys_close 3]) \<and>
   GetInterfacesInBridge kernel_demo stack_demo ''wifi_bridge_number_0'' [] [] =
     (Inr (True, [''wlan0'']),
      [Sys_socket,
       Sys_ioctl 3 (SIOCDEVPRIVATE ''wifi_bridge_num'' BRCTL_GET_PORT_LIST
                      (ifindices_init stack_demo) MAX_PORTS),
       Sys_if_indextoname 7, Sys_close 3]) \<and>
   GetInterfacesInBridge kernel_no_bridge stack_demo ''wifi_bridge_number_0'' [] [] =
     (Inr (False, []),
      [Sys_socket,
       Sys_ioctl 3 (SIOCDEVPRIVATE ''wifi_bridge_num'' BRCTL_GET_PORT_LIST
                      (ifindices_init stack_demo) MAX_PORTS),
       Sys_close 3]) \<and>
   createBridge kernel_demo ''wifi_bridge_number_0'' [] =
     Some (True, [Sys_socket, Sys_ioctl 3 (SIOCBRADDBR ''wifi_bridge_number_0''),
                  Sys_close 3]) \<and>
   deleteBridge kernel_demo ''wifi_bridge_number_0'' [] =
     Some (True, [Sys_socket, Sys_ioctl 3 (SIOCBRDELBR ''wifi_bridge_number_0''),
                  Sys_close 3])"
proof -
  have h: "15 < length (c_str ''wifi_bridge_number_0'')" by (simp add: c_str_examples)
  have calls: "lookups_before (GetInterfaces_calls kernel_demo stack_demo br_name [])
                 (GetInterfaces_ifindices kernel_demo stack_demo br_name []) MAX_PORTS =
               GetInterfaces_calls kernel_demo stack_demo br_name [] @ [Sys_if_indextoname 7]"
    for br_name
    by (simp add: lookups_before_def GetInterfaces_ifindices_demo MAX_PORTS_def)
  from bridge_name_is_cut_only_for_ifr_name
         [OF h, of kernel_demo "[]" "''wlan0''" 0 stack_demo "[]"]
    bridge_name_is_cut_only_for_ifr_name
         [OF h, of kernel_no_bridge "[]" "''wlan0''" 0 stack_demo "[]"] h
  show ?thesis
    by (simp add: c_str_examples kernel_demo_simps kernel_no_bridge_simps demo_ends_at_0
          attempt_def kernel_demo_other_requests unique_fd_close_def demo_replies
          no_bridge_replies port_slots_demo calls)
qed

text \<open>
  Claim C8: no operation repeats a failed kernel request; every failure, an interrupted
  call included, is reported after a single attempt. \<^verbatim>\<open>createBridge\<close> wraps its
  \<^verbatim>\<open>ioctl\<close> in \<^verbatim>\<open>TEMP_FAILURE_RETRY\<close>: on a kernel whose first \<^verbatim>\<open>ioctl\<close> is
  interrupted, it issues the request a second time and returns \<^verbatim>\<open>true\<close>.
\<close>

theorem createBridge_repeats_an_interrupted_request:
  "interrupted (ioctl_result kernel_interrupted_once [Sys_socket] 3 (SIOCBRADDBR ''br0'')) \<and>
   createBridge kernel_interrupted_once ''br0'' [] =
     Some (True, [Sys_socket, Sys_ioctl 3 (SIOCBRADDBR ''br0''),
                  Sys_ioctl 3 (SIOCBRADDBR ''br0''), Sys_close 3])"
proof -
  have e: "retry_ends_at kernel_interrupted_once (socket_result kernel_interrupted_once [])
             (SIOCBRADDBR (c_str ''br0'')) ([] @ [Sys_socket]) 1"
    by (rule interrupted_once_ends_at_1) simp
  have i: "interrupted (ioctl_result kernel_interrupted_once [Sys_socket] 3 (SIOCBRADDBR ''br0''))"
    by (simp add: interrupted_def kernel_interrupted_once_simps)
  from createBridge_result [OF e] i show ?thesis
    by (simp add: attempt_def kernel_interrupted_once_simps c_str_examples unique_fd_close_def)
qed

text \<open>
  Claim C8 as the source has it: \<^verbatim>\<open>createBridge\<close>, \<^verbatim>\<open>deleteBridge\<close>,
  \<^verbatim>\<open>addIfaceToBridge\<close> and \<^verbatim>\<open>removeIfaceFromBridge\<close> repeat their request for as long
  as it is interrupted (\<^verbatim>\<open>-1\<close> with \<^verbatim>\<open>EINTR\<close>) and report the outcome of the first
  attempt that is not, so that any other failure is reported after the attempt that met
  it; \<^verbatim>\<open>GetBridges\<close> and \<^verbatim>\<open>GetInterfacesInBridge\<close> issue their \<^verbatim>\<open>ioctl\<close> once,
  whatever it returns.
\<close>

theorem requests_are_repeated_only_while_interrupted:
  "(retry_ends_at K (socket_result K t) (SIOCBRADDBR (c_str br_name)) (t @ [Sys_socket]) n \<longrightarrow>
      createBridge K br_name t =
        Some (ret (attempt K (socket_result K t) (SIOCBRADDBR (c_str br_name))
                     (t @ [Sys_socket]) n) = 0,
              unique_fd_close (socket_result K t)
                (t @ [Sys_socket] @
                 replicate (Suc n)
                   (Sys_ioctl (socket_result K t) (SIOCBRADDBR (c_str br_name)))))) \<and>
   (retry_ends_at K (socket_result K t) (SIOCBRDELBR (c_str br_name)) (t @ [Sys_socket]) n \<longrightarrow>
      deleteBridge K br_name t =
        Some (ret (attempt K (socket_result K t) (SIOCBRDELBR (c_str br_name))
                     (t @ [Sys_socket]) n) = 0,
              unique_fd_close (socket_result K t)
                (t @ [Sys_socket] @
                 replicate (Suc n)
                   (Sys_ioctl (socket_result K t) (SIOCBRDELBR (c_str br_name)))))) \<and>
   (nametoindex_result K t (c_str if_name) \<noteq> 0 \<and>
    retry_ends_at K (socket_result K (t @ [Sys_if_nametoindex (c_str if_name)]))
      (SIOCBRADDIF (take 15 (c_str br_name)) (nametoindex_result K t (c_str if_name)))
      (t @ [Sys_if_nametoindex (c_str if_name), Sys_socket]) n \<longrightarrow>
      addIfaceToBridge K br_name if_name t =
        Some (ret (attempt K (socket_result K (t @ [Sys_if_nametoindex (c_str if_name)]))
                     (SIOCBRADDIF (take 15 (c_str br_name))
                        (nametoindex_result K t (c_str if_name)))
                     (t @ [Sys_if_nametoindex (c_str if_name), Sys_socket]) n) = 0,
              unique_fd_close (socket_result K (t @ [Sys_if_nametoindex (c_str if_name)]))
                (t @ [Sys_if_nametoindex (c_str if_name), Sys_socket] @
                 replicate (Suc n)
                   (Sys_ioctl (socket_result K (t @ [Sys_if_nametoindex (c_str if_name)]))
                      (SIOCBRADDIF (take 15 (c_str br_name))
                         (nametoindex_result K t (c_str if_name))))))) \<and>
   (nametoindex_result K t (c_str if_name) \<noteq> 0 \<and>
    retry_ends_at K (socket_result K (t @ [Sys_if_nametoindex (c_str if_name)]))
      (SIOCBRDELIF (take 15 (c_str br_name)) (nametoindex_result K t (c_str if_name)))
      (t @ [Sys_if_nametoindex (c_str if_name), Sys_socket]) n \<longrightarrow>
      removeIfaceFromBridge K br_name if_name t =
        Some (ret (attempt K (socket_result K (t @ [Sys_if_nametoindex (c_str if_name)]))
                     (SIOCBRDELIF (take 15 (c_str br_name))
                        (nametoindex_result K t (c_str if_name)))
                     (t @ [Sys_if_nametoindex (c_str if_name), Sys_socket]) n) = 0,
              unique_fd_close (socket_result K (t @ [Sys_if_nametoindex (c_str if_name)]))
                (t @ [Sys_if_nametoindex (c_str if_name), Sys_socket] @
                 replicate (Suc n)
                   (Sys_ioctl (socket_result K (t @ [Sys_if_nametoindex (c_str if_name)]))
                      (SIOCBRDELIF (take 15 (c_str br_name))
                         (nametoindex_result K t (c_str if_name))))))) \<and>
   filter is_ioctl (snd (GetBridges K u bridges t)) =
     filter is_ioctl t @
     (if socket_result K t < 0 then []
      else [Sys_ioctl (socket_result K t) (GetBridges_request u)]) \<and>
   filter is_ioctl (snd (GetInterfacesInBridge K u br_name interfaces t)) =
     filter is_ioctl t @
     (if socket_result K t < 0 then []
      else [Sys_ioctl (socket_result K t) (GetInterfaces_request u br_name)])"
proof -
  note cr = createBridge_result [of K t br_name n]
  note de = deleteBridge_result [of K t br_name n]
  note ad = addIfaceToBridge_result [of K t if_name br_name n]
  note re = removeIfaceFromBridge_result [of K t if_name br_name n]
  note gb = GetBridges_ioctls [of K u bridges t]
  note gi = GetInterfacesInBridge_ioctls [of K u br_name interfaces t]
  from cr de ad re gb gi show ?thesis by blast
qed

theorem requests_are_repeated_only_while_interrupted_witness:
  "retry_ends_at kernel_interrupted_once 3 (SIOCBRADDBR ''br0'') [Sys_socket] 1 \<and>
   retry_ends_at kernel_interrupted_once 3 (SIOCBRDELBR ''br0'') [Sys_socket] 1 \<and>
   retry_ends_at kernel_interrupted_once 3 (SIOCBRADDIF ''br0'' 7)
     [Sys_if_nametoindex ''wlan0'', Sys_socket] 1 \<and>
   retry_ends_at kernel_interrupted_once 3 (SIOCBRDELIF ''br0'' 7)
     [Sys_if_nametoindex ''wlan0'', Sys_socket] 1 \<and>
   createBridge kernel_interrupted_once ''br0'' [] =
     Some (True, [Sys_socket, Sys_ioctl 3 (SIOCBRADDBR ''br0''),
                  Sys_ioctl 3 (SIOCBRADDBR ''br0''), Sys_close 3]) \<and>
   deleteBridge kernel_interrupted_once ''br0'' [] =
     Some (True, [Sys_socket, Sys_ioctl 3 (SIOCBRDELBR ''br0''),
                  Sys_ioctl 3 (SIOCBRDELBR ''br0''), Sys_close 3]) \<and>
   addIfaceToBridge kernel_interrupted_once ''br0'' ''wlan0'' [] =
     Some (True, [Sys_if_nametoindex ''wlan0'', Sys_socket,
                  Sys_ioctl 3 (SIOCBRADDIF ''br0'' 7), Sys_ioctl 3 (SIOCBRADDIF ''br0'' 7),
                  Sys_close 3]) \<and>
   removeIfaceFromBridge kernel_interrupted_once ''br0'' ''wlan0'' [] =
     Some (True, [Sys_if_nametoindex ''wlan0'', Sys_socket,
                  Sys_ioctl 3 (SIOCBRDELIF ''br0'' 7), Sys_ioctl 3 (SIOCBRDELIF ''br0'' 7),
                  Sys_close 3]) \<and>
   interrupted (GetBridges_reply kernel_interrupted_once stack_demo []) \<and>
   filter is_ioctl (snd (GetBridges kernel_interrupted_once stack_demo [] [])) =
     [Sys_ioctl 3 (GetBridges_request stack_demo)] \<and>
   interrupted (GetInterfaces_reply kernel_interrupted_once stack_demo ''br0'' []) \<and>
   filter is_ioctl (snd (GetInterfacesInBridge kernel_interrupted_once stack_demo ''br0'' [] [])) =
     [Sys_ioctl 3 (GetInterfaces_request stack_demo ''br0'')] \<and>
   retry_ends_at kernel_no_bridge 3 (SIOCBRADDBR ''br0'') [Sys_socket] 0 \<and>
   createBridge kernel_no_bridge ''br0'' [] =
     Some (False, [Sys_socket, Sys_ioctl 3 (SIOCBRADDBR ''br0''), Sys_close 3])"
proof -
  have f: "retry_ends_at kernel_no_bridge 3 (SIOCBRADDBR ''br0'') [Sys_socket] 0"
    by (simp add: retry_ends_at_def attempt_def interrupted_def kernel_no_bridge_simps
          EINTR_def ENODEV_def)
  have e: "retry_ends_at kernel_interrupted_once 3 (SIOCBRADDBR ''br0'') [Sys_socket] 1"
    "retry_ends_at kernel_interrupted_once 3 (SIOCBRDELBR ''br0'') [Sys_socket] 1"
    "retry_ends_at kernel_interrupted_once 3 (SIOCBRADDIF ''br0'' 7)
       [Sys_if_nametoindex ''wlan0'', Sys_socket] 1"
    "retry_ends_at kernel_interrupted_once 3 (SIOCBRDELIF ''br0'' 7)
       [Sys_if_nametoindex ''wlan0'', Sys_socket] 1"
    by (rule interrupted_once_ends_at_1, simp)+
  have i: "interrupted (GetBridges_reply kernel_interrupted_once stack_demo [])"
    "interrupted (GetInterfaces_reply kernel_interrupted_once stack_demo ''br0'' [])"
    by (simp_all add: interrupted_def GetBridges_reply_def GetInterfaces_reply_def
          kernel_interrupted_once_simps)
  from requests_are_repeated_only_while_interrupted
         [of kernel_interrupted_once "[]" "''br0''" 1 "''wlan0''" stack_demo "[]" "[]"]
    requests_are_repeated_only_while_interrupted
         [of kernel_no_bridge "[]" "''br0''" 0 "''wlan0''" stack_demo "[]" "[]"] e i f
  show ?thesis
    by (simp add: c_str_examples kernel_interrupted_once_simps kernel_no_bridge_simps
          attempt_def unique_fd_close_def)
qed

text \<open>
  Claim C9: once the socket has been obtained, \<^verbatim>\<open>GetBridges\<close> never returns
  \<^verbatim>\<open>false\<close>: it returns \<^verbatim>\<open>true\<close> for every reply within the capacity of the array,
  and when the \<^verbatim>\<open>SIOCGIFBR\<close> call fails with a negative return value it returns
  \<^verbatim>\<open>true\<close> with the caller's vector unchanged and without looking up any name.
\<close>

theorem GetBridges_succeeds_when_the_query_fails:
  assumes "0 \<le> socket_result K t"
  shows "(\<forall>out. fst (GetBridges K u bridges t) \<noteq> Inr (False, out)) \<and>
         (ret (GetBridges_reply K u t) \<le> int MAX_PORTS \<longrightarrow>
            (\<exists>out. fst (GetBridges K u bridges t) = Inr (True, out))) \<and>
         (ret (GetBridges_reply K u t) < 0 \<longrightarrow>
            GetBridges K u bridges t =
              (Inr (True, bridges),
               unique_fd_close (socket_result K t) (GetBridges_calls K u t)))"
proof -
  have a: "\<forall>out. fst (GetBridges K u bridges t) \<noteq> Inr (False, out)"
    using GetBridges_never_fails_with_socket [OF assms] by blast
  have b: "\<exists>out. fst (GetBridges K u bridges t) = Inr (True, out)"
    if "ret (GetBridges_reply K u t) \<le> int MAX_PORTS"
    by (simp add: GetBridges_in_range [OF assms that])
  have c: "GetBridges K u bridges t =
              (Inr (True, bridges),
               unique_fd_close (socket_result K t) (GetBridges_calls K u t))"
    if neg: "ret (GetBridges_reply K u t) < 0"
  proof -
    from neg have le: "ret (GetBridges_reply K u t) \<le> int MAX_PORTS" by simp
    from neg have z: "nat (ret (GetBridges_reply K u t)) = 0" by simp
    show ?thesis
      by (simp add: GetBridges_in_range [OF assms le] z resolved_names_def lookups_before_def
            List.map_filter_simps)
  qed
  from a b c show ?thesis by blast
qed

theorem GetBridges_succeeds_when_the_query_fails_witness:
  "0 \<le> socket_result kernel_no_bridge [] \<and>
   ret (GetBridges_reply kernel_no_bridge stack_demo []) < 0 \<and>
   GetBridges kernel_no_bridge stack_demo [''lo''] [] =
     (Inr (True, [''lo'']),
      [Sys_socket, Sys_ioctl 3 (GetBridges_request stack_demo), Sys_close 3])"
proof -
  have h: "0 \<le> socket_result kernel_no_bridge []" by (simp add: kernel_no_bridge_simps)
  from GetBridges_succeeds_when_the_query_fails [OF h, of stack_demo "[''lo'']"]
  show ?thesis
    by (simp add: no_bridge_replies kernel_no_bridge_simps GetBridges_calls_def
          unique_fd_close_def)
qed

text \<open>
  Claim C10: both enumerations append to the caller's vector without clearing it: whatever
  it held before the call is the beginning of what it holds afterwards, and the names
  found come after it.
\<close>

theorem enumerations_append_to_the_vector:
  "((\<exists>ok new. fst (GetBridges K u bridges t) = Inr (ok, bridges @ new)) \<or>
    fst (GetBridges K u bridges t) = Inl Out_of_bounds_read) \<and>
   (\<exists>ok new. fst (GetInterfacesInBridge K u br_name interfaces t) =
      Inr (ok, interfaces @ new))"
  using GetBridges_appends [of K u bridges t]
    GetInterfacesInBridge_appends [of K u br_name interfaces t]
  by blast

theorem enumerations_append_to_the_vector_witness:
  "fst (GetBridges kernel_demo stack_demo [''lo'', ''eth0''] []) =
     Inr (True, [''lo'', ''eth0''] @ [''br0'']) \<and>
   fst (GetInterfacesInBridge kernel_demo stack_demo ''br0'' [''lo'', ''eth0''] []) =
     Inr (True, [''lo'', ''eth0''] @ [''wlan0''])"
  using enumerations_append_to_the_vector
          [of kernel_demo stack_demo "[''lo'', ''eth0'']" "[]" "''br0''" "[''lo'', ''eth0'']"]
  by (simp add: GetBridges_demo GetInterfacesInBridge_demo)

end
